theory Spec2Isabelle
  imports Main "HOL-Library.AList"
begin

section \<open>The ZiVPN chat bot: a shallow embedding\<close>

text \<open>
  The repository holds three variants of one Go program (package main):
  \<^item> variant I: src/unnamed/part_001, the complete program;
  \<^item> variant II: src/zivpn-bot.go, which redefines the event handlers, the broadcast,
    the session bookkeeping and the API access, and says of every other function that it
    stays as it was;
  \<^item> variant III: src/unnamed/part_000, which redefines the event handlers, the
    messaging features and the menus, and likewise leaves the rest as it was.
  A definition without suffix embeds variant I; the suffixes \<open>_II\<close> and \<open>_III\<close> mark
  the functions variants II and III redefine. A function a variant does not redefine is
  taken from the variant that defines it.

  Conventions of the embedding.
  \<^item> Go strings are byte strings: \<open>string\<close>, and \<open>length\<close> is Go's \<open>len\<close>.
  \<^item> int64 identifiers (user, chat) are only stored and compared: they are \<open>int\<close>.
    Counters and page numbers are Go \<open>int\<close>; they are \<open>int\<close> as well, and
    \<open>pageWindow_no_overflow\<close> below shows that the pager's arithmetic stays within 64 bits.
  \<^item> The process-wide maps are fields of \<open>state\<close>. \<open>activeChats\<close>, the one map the
    program ranges over, is an association list with distinct keys whose order is the
    (unspecified) order in which Go's range produces the entries.
  \<^item> The outside world (Telegram, the HTTP back end, the clock, the file system) is a
    record of oracles \<open>world\<close>, indexed by \<open>tick\<close>, the number of calls made so far;
    what the program does to the world is appended to \<open>trace\<close>.
  \<^item> The fixed wording of a message is a tag; a \<open>wording\<close> is the tag with the
    formatted arguments. A keyboard is the callback data of its
    buttons, row by row (labels are display only). Log output is not modelled.
  \<^item> A Go panic (index out of range, failed type assertion, write to a nil map) is
    \<open>Inl\<close> of an \<open>error\<close>.
\<close>

subsection \<open>Go library functions used by the program\<close>

text \<open>strings.HasPrefix, strings.TrimPrefix, strings.Contains, strings.Split (one-byte separator).\<close>

definition HasPrefix :: "string \<Rightarrow> string \<Rightarrow> bool" where
  "HasPrefix s p = (take (length p) s = p)"

definition TrimPrefix :: "string \<Rightarrow> string \<Rightarrow> string" where
  "TrimPrefix s p = (if HasPrefix s p then drop (length p) s else s)"

fun Contains :: "string \<Rightarrow> string \<Rightarrow> bool" where
  "Contains [] sub = (sub = [])"
| "Contains (c # s) sub = (HasPrefix (c # s) sub \<or> Contains s sub)"

fun Split :: "string \<Rightarrow> char \<Rightarrow> string list" where
  "Split [] sep = [[]]"
| "Split (c # s) sep =
     (if c = sep then [] # Split s sep
      else (case Split s sep of [] \<Rightarrow> [[c]] | p # ps \<Rightarrow> (c # p) # ps))"

text \<open>
  strings.ToLower on the ASCII letters. Go lowers non-ASCII runes by the Unicode tables;
  the program only compares the result with ASCII keywords.
\<close>

definition lower_byte :: "char \<Rightarrow> char" where
  "lower_byte c = (let n = (of_char c :: nat) in if 65 \<le> n \<and> n \<le> 90 then char_of (n + 32) else c)"

definition ToLower :: "string \<Rightarrow> string" where
  "ToLower s = map lower_byte s"

text \<open>
  strings.TrimSpace: removes leading and trailing Unicode white space, here as the UTF-8
  byte sequences of the code points unicode.IsSpace accepts.
\<close>

definition space_seqs :: "string list" where
  "space_seqs =
    [[CHR 0x09], [CHR 0x0A], [CHR 0x0B], [CHR 0x0C], [CHR 0x0D], [CHR 0x20],
     [CHR 0xC2, CHR 0x85], [CHR 0xC2, CHR 0xA0], [CHR 0xE1, CHR 0x9A, CHR 0x80],
     [CHR 0xE2, CHR 0x80, CHR 0x80], [CHR 0xE2, CHR 0x80, CHR 0x81],
     [CHR 0xE2, CHR 0x80, CHR 0x82], [CHR 0xE2, CHR 0x80, CHR 0x83],
     [CHR 0xE2, CHR 0x80, CHR 0x84], [CHR 0xE2, CHR 0x80, CHR 0x85],
     [CHR 0xE2, CHR 0x80, CHR 0x86], [CHR 0xE2, CHR 0x80, CHR 0x87],
     [CHR 0xE2, CHR 0x80, CHR 0x88], [CHR 0xE2, CHR 0x80, CHR 0x89],
     [CHR 0xE2, CHR 0x80, CHR 0x8A], [CHR 0xE2, CHR 0x80, CHR 0xA8],
     [CHR 0xE2, CHR 0x80, CHR 0xA9], [CHR 0xE2, CHR 0x80, CHR 0xAF],
     [CHR 0xE2, CHR 0x81, CHR 0x9F], [CHR 0xE3, CHR 0x80, CHR 0x80]]"

fun strip_one :: "string list \<Rightarrow> string \<Rightarrow> string option" where
  "strip_one [] s = None"
| "strip_one (p # ps) s = (if HasPrefix s p then Some (drop (length p) s) else strip_one ps s)"

fun strip_many :: "nat \<Rightarrow> string list \<Rightarrow> string \<Rightarrow> string" where
  "strip_many 0 seqs s = s"
| "strip_many (Suc n) seqs s =
     (case strip_one seqs s of None \<Rightarrow> s | Some t \<Rightarrow> strip_many n seqs t)"

definition TrimLeft :: "string \<Rightarrow> string" where
  "TrimLeft s = strip_many (length s) space_seqs s"

definition TrimRight :: "string \<Rightarrow> string" where
  "TrimRight s = rev (strip_many (length s) (map rev space_seqs) (rev s))"

definition TrimSpace :: "string \<Rightarrow> string" where
  "TrimSpace s = TrimRight (TrimLeft s)"

text \<open>
  strconv.Atoi on a 64-bit platform: the value and whether err is nil. A syntax error gives
  0, a range error the nearest int64.
\<close>

definition is_digit :: "char \<Rightarrow> bool" where
  "is_digit c = (let n = (of_char c :: nat) in 48 \<le> n \<and> n \<le> 57)"

definition digits_value :: "string \<Rightarrow> int" where
  "digits_value ds = foldl (\<lambda>a c. 10 * a + (int (of_char c) - 48)) 0 ds"

definition Atoi :: "string \<Rightarrow> int \<times> bool" where
  "Atoi s =
     (let neg = (s \<noteq> [] \<and> hd s = CHR ''-'');
          ds = (if s \<noteq> [] \<and> (hd s = CHR ''-'' \<or> hd s = CHR ''+'') then tl s else s)
      in if ds = [] \<or> \<not> list_all is_digit ds then (0, False)
         else let n = digits_value ds
              in if neg then (if n > 2 ^ 63 then (- (2 ^ 63), False) else (- n, True))
                 else (if n \<ge> 2 ^ 63 then (2 ^ 63 - 1, False) else (n, True)))"

text \<open>
  path/filepath.Join of two elements on Unix: the elements joined by a slash, then
  cleaned (empty and dot components dropped, dot-dot resolved, never above the root).
\<close>

fun clean_parts :: "string list \<Rightarrow> bool \<Rightarrow> string list \<Rightarrow> string list" where
  "clean_parts acc rooted [] = rev acc"
| "clean_parts acc rooted (p # ps) =
     (if p = [] \<or> p = ''.'' then clean_parts acc rooted ps
      else if p = ''..'' then
        (case acc of
           [] \<Rightarrow> if rooted then clean_parts [] rooted ps else clean_parts [''..''] rooted ps
         | q # qs \<Rightarrow> if q = ''..'' then clean_parts (p # acc) rooted ps
                     else clean_parts qs rooted ps)
      else clean_parts (p # acc) rooted ps)"

fun join_parts :: "string list \<Rightarrow> string" where
  "join_parts [] = []"
| "join_parts [p] = p"
| "join_parts (p # q # ps) = p @ ''/'' @ join_parts (q # ps)"

definition Clean :: "string \<Rightarrow> string" where
  "Clean path =
     (let rooted = HasPrefix path ''/'';
          out = (if rooted then ''/'' else []) @ join_parts (clean_parts [] rooted (Split path CHR ''/''))
      in if out = [] then ''.'' else out)"

definition Join :: "string \<Rightarrow> string \<Rightarrow> string" where
  "Join a b =
     (if a = [] \<and> b = [] then []
      else if a = [] then Clean b
      else if b = [] then Clean a
      else Clean (a @ ''/'' @ b))"

subsection \<open>Data model\<close>

record BotConfig =
  BotToken :: string
  AdminID :: int
  Mode :: string
  DomainName :: string

record IpInfo =
  City :: string
  Isp :: string
  Query :: string

record UserData =
  Password :: string
  Expired :: string
  Status :: string
  IpLimit :: int

text \<open>
  Joined is the formatted time of the upsert; the model keeps the clock value.
  Variant I has no Username field: there it is always empty.
\<close>

record ChatSession =
  UserID :: int
  ChatID :: int
  Username :: string
  Joined :: int

text \<open>A JSON value as encoding/json decodes it into interface{}.\<close>

datatype json = JNull | JBool bool | JNum int | JStr string | JArr "json list" | JObj "(string \<times> json) list"

text \<open>The result of apiCall: an error, or the decoded map[string]interface{}.\<close>

datatype api_reply = ApiError string | ApiReply "(string \<times> json) list"

text \<open>One entry of the uploaded archive: its name and its content (None: Open fails).\<close>

record zip_entry =
  Name :: string
  Content :: "string option"

text \<open>What the download of an uploaded document yields.\<close>

datatype download = GetFileFailed | HttpGetFailed | ReadFailed | NotZip | Archive "zip_entry list"

text \<open>
  tgbotapi.Message, as far as the program reads it. IsCommand and Command are the
  library's methods, which read the message entities; Document holds the FileID.
\<close>

record Message =
  Chat_ID :: int
  From_ID :: int
  From_UserName :: string
  Text :: string
  Document :: "string option"
  IsCommand :: bool
  Command :: string

record CallbackQuery =
  Query_ID :: string
  Query_From_ID :: int
  Query_From_UserName :: string
  Query_Chat_ID :: int
  Data :: string

datatype error = IndexOutOfRange | TypeAssertion | NilMap

type_synonym keyboard = "string list list"

text \<open>
  A message text: the tag of its fixed wording and the formatted arguments, in the order
  the format string takes them.
\<close>

datatype arg = S string | N int | B bool | J "json option" | L "string list"

datatype wording = Wording string "arg list"

datatype effect =
    Send int wording keyboard "int option"
  | SendDocument int "string list"
  | ApiRequest string string "arg list"
  | DeleteMessage int int
  | AnswerCallback string string
  | WriteChats "ChatSession list"
  | WriteConfig BotConfig
  | WriteFile string string
  | RemoveFile string
  | Restart string
  | Sleep nat

text \<open>
  The oracles. \<open>send_result\<close>: bot.Send gives the id of the sent message, or None for an
  error. \<open>api_result\<close>: apiCall. \<open>users_result\<close>: getUsers, that is the call of /users
  and the decoding of its data (None for an error). \<open>io_ok\<close>: whether a file operation
  or a probe of a service succeeds. \<open>download_result\<close>: the download and opening of an
  uploaded archive. \<open>file_content\<close>: the readable files.
\<close>

record world =
  send_result :: "nat \<Rightarrow> int option"
  api_result :: "nat \<Rightarrow> api_reply"
  users_result :: "nat \<Rightarrow> UserData list option"
  ip_result :: "nat \<Rightarrow> IpInfo"
  clock :: "nat \<Rightarrow> int"
  io_ok :: "nat \<Rightarrow> bool"
  download_result :: "nat \<Rightarrow> download"
  file_content :: "string \<Rightarrow> string option"

record state =
  userStates :: "int \<Rightarrow> string option"
  tempUserData :: "int \<Rightarrow> (string \<Rightarrow> string option) option"
  lastMessageIDs :: "int \<Rightarrow> int option"
  activeChats :: "(int \<times> ChatSession) list"
  lastSaveTime :: int
  config :: BotConfig
  trace :: "effect list"
  tick :: nat

subsection \<open>Talking to the world\<close>

definition emit :: "effect \<Rightarrow> state \<Rightarrow> state" where
  "emit e s = s\<lparr>trace := trace s @ [e]\<rparr>"

definition step :: "state \<Rightarrow> state" where
  "step s = s\<lparr>tick := Suc (tick s)\<rparr>"

text \<open>bot.Send of a text message.\<close>

definition botSend :: "world \<Rightarrow> int \<Rightarrow> wording \<Rightarrow> keyboard \<Rightarrow> state \<Rightarrow> int option \<times> state" where
  "botSend w chatID txt kb s =
     (let r = send_result w (tick s) in (r, step (emit (Send chatID txt kb r) s)))"

definition getIpInfo :: "world \<Rightarrow> state \<Rightarrow> IpInfo \<times> state" where
  "getIpInfo w s = (ip_result w (tick s), step s)"

definition apiCall :: "world \<Rightarrow> string \<Rightarrow> string \<Rightarrow> arg list \<Rightarrow> state \<Rightarrow> api_reply \<times> state" where
  "apiCall w method endpoint payload s =
     (api_result w (tick s), step (emit (ApiRequest method endpoint payload) s))"

definition getUsers :: "world \<Rightarrow> state \<Rightarrow> UserData list option \<times> state" where
  "getUsers w s = (users_result w (tick s), step (emit (ApiRequest ''GET'' ''/users'' []) s))"

definition timeNow :: "world \<Rightarrow> state \<Rightarrow> int \<times> state" where
  "timeNow w s = (clock w (tick s), step s)"

definition ioResult :: "world \<Rightarrow> state \<Rightarrow> bool \<times> state" where
  "ioResult w s = (io_ok w (tick s), step s)"

definition fetchArchive :: "world \<Rightarrow> state \<Rightarrow> download \<times> state" where
  "fetchArchive w s = (download_result w (tick s), step s)"

text \<open>The effects a call has added to the trace.\<close>

definition new_effects :: "state \<Rightarrow> state \<Rightarrow> effect list" where
  "new_effects s s' = drop (length (trace s)) (trace s')"

subsection \<open>Helpers of every variant (src/unnamed/part_001)\<close>

definition deleteLastMessage :: "int \<Rightarrow> state \<Rightarrow> state" where
  "deleteLastMessage chatID s =
     (case lastMessageIDs s chatID of
        None \<Rightarrow> s
      | Some msgID \<Rightarrow>
          (emit (DeleteMessage chatID msgID) s)\<lparr>lastMessageIDs := (lastMessageIDs s)(chatID := None)\<rparr>)"

definition sendAndTrack :: "world \<Rightarrow> int \<Rightarrow> wording \<Rightarrow> keyboard \<Rightarrow> state \<Rightarrow> state" where
  "sendAndTrack w chatID txt kb s =
     (case botSend w chatID txt kb (deleteLastMessage chatID s) of
        (None, s1) \<Rightarrow> s1
      | (Some sentID, s1) \<Rightarrow> s1\<lparr>lastMessageIDs := (lastMessageIDs s1)(chatID \<mapsto> sentID)\<rparr>)"

text \<open>sendMessage adds the cancel button when userStates has an entry under the chat id.\<close>

definition sendMessage :: "world \<Rightarrow> int \<Rightarrow> wording \<Rightarrow> state \<Rightarrow> state" where
  "sendMessage w chatID txt s =
     sendAndTrack w chatID txt (if userStates s chatID \<noteq> None then [[''cancel'']] else []) s"

definition replyError :: "world \<Rightarrow> int \<Rightarrow> wording \<Rightarrow> state \<Rightarrow> state" where
  "replyError w chatID txt s =
     (case txt of Wording t args \<Rightarrow> sendMessage w chatID (Wording (''X '' @ t) args) s)"

definition resetState :: "int \<Rightarrow> state \<Rightarrow> state" where
  "resetState userID s =
     s\<lparr>userStates := (userStates s)(userID := None), tempUserData := (tempUserData s)(userID := None)\<rparr>"

definition getMainMenuKeyboard :: "BotConfig \<Rightarrow> int \<Rightarrow> keyboard" where
  "getMainMenuKeyboard cfg userID =
     [[''menu_create'', ''menu_delete'', ''menu_renew'']] @
     (if userID = AdminID cfg
      then [[''menu_list'', ''menu_info''], [''menu_backup_restore'', ''menu_message''], [''toggle_mode'']]
      else [])"

definition showMainMenu :: "world \<Rightarrow> int \<Rightarrow> state \<Rightarrow> state" where
  "showMainMenu w chatID s =
     (case getIpInfo w s of
        (ipInfo, s1) \<Rightarrow>
          let domain = (if DomainName (config s1) = [] then ''Not Configured'' else DomainName (config s1));
              activeCount = int (length (activeChats s1))
          in sendAndTrack w chatID
               (Wording ''ZIVPN UDP MENU'' [S domain, S (City ipInfo), S (Isp ipInfo), N activeCount])
               (getMainMenuKeyboard (config s1) chatID) s1)"

definition cancelOperation :: "world \<Rightarrow> int \<Rightarrow> int \<Rightarrow> state \<Rightarrow> state" where
  "cancelOperation w chatID userID s = showMainMenu w chatID (resetState userID s)"

definition isAllowed :: "BotConfig \<Rightarrow> int \<Rightarrow> bool" where
  "isAllowed cfg userID = (Mode cfg = ''public'' \<or> userID = AdminID cfg)"

subsection \<open>The session registry\<close>

definition saveChats :: "state \<Rightarrow> state" where
  "saveChats s = emit (WriteChats (map snd (activeChats s))) s"

text \<open>Variant I: a session is recorded once, when the user is not yet known, and saved at once.\<close>

definition saveChatSession :: "world \<Rightarrow> int \<Rightarrow> int \<Rightarrow> state \<Rightarrow> state" where
  "saveChatSession w userID chatID s =
     (case map_of (activeChats s) userID of
        Some known \<Rightarrow> s
      | None \<Rightarrow>
          (case timeNow w s of
             (now, s1) \<Rightarrow>
               saveChats (s1\<lparr>activeChats :=
                 AList.update userID \<lparr>UserID = userID, ChatID = chatID, Username = [], Joined = now\<rparr>
                   (activeChats s1)\<rparr>)))"

text \<open>
  Variant II (also used by variant III): the session is overwritten on every event and the
  file is written at most every 30 seconds. The clock counts nanoseconds.
\<close>

definition saveChatSession_II :: "world \<Rightarrow> int \<Rightarrow> int \<Rightarrow> string \<Rightarrow> state \<Rightarrow> state" where
  "saveChatSession_II w userID chatID username s =
     (case timeNow w s of
        (now, s1) \<Rightarrow>
          let s2 = s1\<lparr>activeChats :=
                     AList.update userID \<lparr>UserID = userID, ChatID = chatID, Username = username, Joined = now\<rparr>
                       (activeChats s1)\<rparr>
          in (case timeNow w s2 of
                (now2, s3) \<Rightarrow>
                  if now2 - lastSaveTime s3 > 30 * 1000000000
                  then (saveChats s3)\<lparr>lastSaveTime := now\<rparr>
                  else s3))"

subsection \<open>Broadcast\<close>

text \<open>
  The range over activeChats: the keys are taken in the registry's order; an entry that was
  deleted before it is reached is not produced (the Go specification of range over a map).
  The accumulator is (totalSent, totalFailed, state).
\<close>

fun broadcastLoop :: "world \<Rightarrow> string \<Rightarrow> int list \<Rightarrow> int \<times> int \<times> state \<Rightarrow> int \<times> int \<times> state" where
  "broadcastLoop w message [] acc = acc"
| "broadcastLoop w message (userID # rest) (totalSent, totalFailed, s) =
     (case map_of (activeChats s) userID of
        None \<Rightarrow> broadcastLoop w message rest (totalSent, totalFailed, s)
      | Some session \<Rightarrow>
          if userID = AdminID (config s) then broadcastLoop w message rest (totalSent, totalFailed, s)
          else (case botSend w (ChatID session) (Wording ''BROADCAST MESSAGE'' [S message]) [] s of
                  (None, s1) \<Rightarrow>
                    broadcastLoop w message rest
                      (totalSent, totalFailed + 1,
                       emit (Sleep 100) (s1\<lparr>activeChats := AList.delete userID (activeChats s1)\<rparr>))
                | (Some sentID, s1) \<Rightarrow>
                    broadcastLoop w message rest (totalSent + 1, totalFailed, emit (Sleep 100) s1)))"

definition sendBroadcastMessage :: "world \<Rightarrow> int \<Rightarrow> string \<Rightarrow> state \<Rightarrow> state" where
  "sendBroadcastMessage w chatID message s =
     (if message = ''/cancel'' then cancelOperation w chatID (AdminID (config s)) s
      else
        (case botSend w chatID
                (Wording ''Mengirim Broadcast...'' [S (take (min 50 (length message)) message)]) [] s of
           (sent0, s1) \<Rightarrow>
             (case broadcastLoop w message (map fst (activeChats s1)) (0, 0, s1) of
                (totalSent, totalFailed, s2) \<Rightarrow>
                  (case botSend w chatID
                          (Wording ''Broadcast Selesai!''
                             [N totalSent, N totalFailed, N (int (length (activeChats (saveChats s2))) - 1)])
                          [] (saveChats s2) of
                     (sent1, s3) \<Rightarrow> showMainMenu w chatID s3))))"

text \<open>truncateString of variants II and III.\<close>

definition truncateString :: "string \<Rightarrow> nat \<Rightarrow> string" where
  "truncateString str maxLen = (if length str \<le> maxLen then str else take maxLen str @ ''...'')"

text \<open>Variant II: a failed recipient stays registered; its handle goes into the report.\<close>

fun broadcastLoop_II ::
  "world \<Rightarrow> string \<Rightarrow> int list \<Rightarrow> int \<times> int \<times> string list \<times> state \<Rightarrow> int \<times> int \<times> string list \<times> state" where
  "broadcastLoop_II w message [] acc = acc"
| "broadcastLoop_II w message (userID # rest) (totalSent, totalFailed, failedUsers, s) =
     (case map_of (activeChats s) userID of
        None \<Rightarrow> broadcastLoop_II w message rest (totalSent, totalFailed, failedUsers, s)
      | Some session \<Rightarrow>
          if userID = AdminID (config s)
          then broadcastLoop_II w message rest (totalSent, totalFailed, failedUsers, s)
          else (case botSend w (ChatID session) (Wording ''BROADCAST MESSAGE FROM ADMIN'' [S message]) [] s of
                  (None, s1) \<Rightarrow>
                    broadcastLoop_II w message rest
                      (totalSent, totalFailed + 1, failedUsers @ [Username session], emit (Sleep 50) s1)
                | (Some sentID, s1) \<Rightarrow>
                    broadcastLoop_II w message rest
                      (totalSent + 1, totalFailed, failedUsers, emit (Sleep 50) s1)))"

definition sendBroadcastMessage_II :: "world \<Rightarrow> int \<Rightarrow> string \<Rightarrow> state \<Rightarrow> state" where
  "sendBroadcastMessage_II w chatID message s =
     (if ToLower message = ''/cancel'' \<or> message = ''cancel''
      then cancelOperation w chatID (AdminID (config s)) s
      else
        (case botSend w chatID (Wording ''Mengirim Broadcast...'' [S (truncateString message 100)]) [] s of
           (sent0, s1) \<Rightarrow>
             (case broadcastLoop_II w message (map fst (activeChats s1)) (0, 0, [], s1) of
                (totalSent, totalFailed, failedUsers, s2) \<Rightarrow>
                  (case timeNow w s2 of
                     (now, s3) \<Rightarrow>
                       let s4 = (if now - lastSaveTime s3 > 60 * 1000000000 then saveChats s3 else s3)
                       in (case botSend w chatID
                                 (Wording ''Broadcast Selesai!''
                                    ([N totalSent, N totalFailed, N (int (length (activeChats s4)) - 1)] @
                                     (if totalFailed > 0
                                      then [L (take (min 5 (length failedUsers)) failedUsers)]
                                      else [])))
                                 [] s4 of
                             (sent1, s5) \<Rightarrow> showMainMenu w chatID s5)))))"

text \<open>Variant III: any text that contains the word cancels; nothing is removed or saved.\<close>

fun broadcastLoop_III :: "world \<Rightarrow> string \<Rightarrow> int list \<Rightarrow> int \<times> int \<times> state \<Rightarrow> int \<times> int \<times> state" where
  "broadcastLoop_III w message [] acc = acc"
| "broadcastLoop_III w message (userID # rest) (totalSent, totalFailed, s) =
     (case map_of (activeChats s) userID of
        None \<Rightarrow> broadcastLoop_III w message rest (totalSent, totalFailed, s)
      | Some session \<Rightarrow>
          if userID = AdminID (config s) then broadcastLoop_III w message rest (totalSent, totalFailed, s)
          else (case botSend w (ChatID session) (Wording ''BROADCAST MESSAGE'' [S message]) [] s of
                  (None, s1) \<Rightarrow>
                    broadcastLoop_III w message rest (totalSent, totalFailed + 1, emit (Sleep 50) s1)
                | (Some sentID, s1) \<Rightarrow>
                    broadcastLoop_III w message rest (totalSent + 1, totalFailed, emit (Sleep 50) s1)))"

definition sendBroadcastMessage_III :: "world \<Rightarrow> int \<Rightarrow> string \<Rightarrow> state \<Rightarrow> state" where
  "sendBroadcastMessage_III w chatID message s =
     (if Contains (ToLower message) ''cancel''
      then cancelOperation w chatID (AdminID (config s)) s
      else
        (case botSend w chatID (Wording ''Mengirim Broadcast...'' [S (truncateString message 100)]) [] s of
           (sent0, s1) \<Rightarrow>
             (case broadcastLoop_III w message (map fst (activeChats s1)) (0, 0, s1) of
                (totalSent, totalFailed, s2) \<Rightarrow>
                  (case botSend w chatID
                          (Wording ''Broadcast Selesai!''
                             [N totalSent, N totalFailed, N (int (length (activeChats s2)) - 1)])
                          [] s2 of
                     (sent1, s3) \<Rightarrow> showMainMenu w chatID s3))))"

subsection \<open>Validation\<close>

text \<open>
  The regular expression \<open>^[a-zA-Z0-9_-]+$\<close> of validateUsername. Go's \<open>$\<close> matches at
  the end of the text only; a byte above 0x7F belongs to no rune of the class.
\<close>

definition name_char :: "char \<Rightarrow> bool" where
  "name_char c =
     (let n = (of_char c :: nat)
      in (97 \<le> n \<and> n \<le> 122) \<or> (65 \<le> n \<and> n \<le> 90) \<or> (48 \<le> n \<and> n \<le> 57) \<or>
         c = CHR ''_'' \<or> c = CHR ''-'')"

definition matches_name :: "string \<Rightarrow> bool" where
  "matches_name txt = (txt \<noteq> [] \<and> list_all name_char txt)"

definition validateUsername :: "world \<Rightarrow> int \<Rightarrow> string \<Rightarrow> state \<Rightarrow> bool \<times> state" where
  "validateUsername w chatID txt s =
     (if length txt < 3 \<or> length txt > 20
      then (False, sendMessage w chatID (Wording ''Password harus 3-20 karakter. Coba lagi:'' []) s)
      else if \<not> matches_name txt
      then (False, sendMessage w chatID
                     (Wording ''Password hanya boleh huruf, angka, - dan _. Coba lagi:'' []) s)
      else (True, s))"

definition validateNumber ::
  "world \<Rightarrow> int \<Rightarrow> string \<Rightarrow> int \<Rightarrow> int \<Rightarrow> string \<Rightarrow> state \<Rightarrow> (int \<times> bool) \<times> state" where
  "validateNumber w chatID txt lo hi fieldName s =
     (case Atoi txt of
        (val, ok) \<Rightarrow>
          if \<not> ok \<or> val < lo \<or> val > hi
          then ((0, False),
                sendMessage w chatID
                  (Wording ''%s harus angka positif (%d-%d). Coba lagi:'' [S fieldName, N lo, N hi]) s)
          else ((val, True), s))"

subsection \<open>Account operations\<close>

definition startCreateUser :: "world \<Rightarrow> int \<Rightarrow> int \<Rightarrow> state \<Rightarrow> state" where
  "startCreateUser w chatID userID s =
     sendMessage w chatID (Wording ''Masukkan Password untuk user baru:'' [])
       (s\<lparr>userStates := (userStates s)(userID \<mapsto> ''create_username''),
          tempUserData := (tempUserData s)(userID \<mapsto> Map.empty)\<rparr>)"

definition startRenewUser :: "world \<Rightarrow> int \<Rightarrow> int \<Rightarrow> string \<Rightarrow> state \<Rightarrow> state" where
  "startRenewUser w chatID userID data s =
     (let username = TrimPrefix data ''select_renew:''
      in sendMessage w chatID (Wording ''Renewing %s Masukkan Tambahan Durasi (hari):'' [S username])
           (s\<lparr>tempUserData := (tempUserData s)(userID \<mapsto> [''username'' \<mapsto> username]),
              userStates := (userStates s)(userID \<mapsto> ''renew_days'')\<rparr>))"

definition sendAccountInfo :: "world \<Rightarrow> int \<Rightarrow> (string \<times> json) list \<Rightarrow> state \<Rightarrow> state" where
  "sendAccountInfo w chatID data s =
     (case getIpInfo w s of
        (ipInfo, s1) \<Rightarrow>
          let domain = (if DomainName (config s1) = [] then ''Not Configured'' else DomainName (config s1))
          in (case botSend w chatID
                     (Wording ''ACCOUNT ZIVPN UDP''
                        [J (map_of data ''password''), S (City ipInfo), S (Isp ipInfo), S (Query ipInfo),
                         S domain, J (map_of data ''expired'')])
                     [] (deleteLastMessage chatID s1) of
                (sent, s2) \<Rightarrow> showMainMenu w chatID s2))"

text \<open>
  createUser and renewUser differ in the endpoint only. The type assertion on the data of a
  successful reply panics when the data is not an object.
\<close>

definition accountCall :: "world \<Rightarrow> string \<Rightarrow> int \<Rightarrow> string \<Rightarrow> int \<Rightarrow> state \<Rightarrow> error + state" where
  "accountCall w endpoint chatID username days s =
     (case apiCall w ''POST'' endpoint [S username, N days] s of
        (ApiError err, s1) \<Rightarrow> Inr (replyError w chatID (Wording ''Error API: %s'' [S err]) s1)
      | (ApiReply res, s1) \<Rightarrow>
          if map_of res ''success'' = Some (JBool True)
          then (case map_of res ''data'' of
                  Some (JObj data) \<Rightarrow> Inr (sendAccountInfo w chatID data s1)
                | other \<Rightarrow> Inl TypeAssertion)
          else Inr (showMainMenu w chatID
                      (replyError w chatID (Wording ''Gagal: %s'' [J (map_of res ''message'')]) s1)))"

definition createUser :: "world \<Rightarrow> int \<Rightarrow> string \<Rightarrow> int \<Rightarrow> state \<Rightarrow> error + state" where
  "createUser w chatID username days s = accountCall w ''/user/create'' chatID username days s"

definition renewUser :: "world \<Rightarrow> int \<Rightarrow> string \<Rightarrow> int \<Rightarrow> state \<Rightarrow> error + state" where
  "renewUser w chatID username days s = accountCall w ''/user/renew'' chatID username days s"

definition deleteUser :: "world \<Rightarrow> int \<Rightarrow> string \<Rightarrow> state \<Rightarrow> state" where
  "deleteUser w chatID username s =
     (case apiCall w ''POST'' ''/user/delete'' [S username] s of
        (ApiError err, s1) \<Rightarrow> replyError w chatID (Wording ''Error API: %s'' [S err]) s1
      | (ApiReply res, s1) \<Rightarrow>
          if map_of res ''success'' = Some (JBool True)
          then (case botSend w chatID (Wording ''Password berhasil dihapus.'' []) []
                       (deleteLastMessage chatID s1) of
                  (sent, s2) \<Rightarrow> showMainMenu w chatID s2)
          else showMainMenu w chatID
                 (replyError w chatID (Wording ''Gagal: %s'' [J (map_of res ''message'')]) s1))"

text \<open>The lines of listUsers: each element must be an object, or the assertion panics.\<close>

fun listLines :: "json list \<Rightarrow> error + arg list" where
  "listLines [] = Inr []"
| "listLines (JObj user # users) =
     (case listLines users of
        Inl e \<Rightarrow> Inl e
      | Inr rest \<Rightarrow>
          Inr ([B (map_of user ''status'' = Some (JStr ''Expired'')),
                J (map_of user ''password''), J (map_of user ''expired'')] @ rest))"
| "listLines (other # users) = Inl TypeAssertion"

definition listUsers :: "world \<Rightarrow> int \<Rightarrow> state \<Rightarrow> error + state" where
  "listUsers w chatID s =
     (case apiCall w ''GET'' ''/users'' [] s of
        (ApiError err, s1) \<Rightarrow> Inr (replyError w chatID (Wording ''Error API: %s'' [S err]) s1)
      | (ApiReply res, s1) \<Rightarrow>
          if map_of res ''success'' = Some (JBool True)
          then (case map_of res ''data'' of
                  Some (JArr users) \<Rightarrow>
                    if length users = 0 then Inr (sendMessage w chatID (Wording ''Tidak ada user.'' []) s1)
                    else (case listLines users of
                            Inl e \<Rightarrow> Inl e
                          | Inr lines \<Rightarrow> Inr (sendAndTrack w chatID (Wording ''List Passwords'' lines) [] s1))
                | other \<Rightarrow> Inl TypeAssertion)
          else Inr (replyError w chatID (Wording ''Gagal mengambil data.'' []) s1))"

definition confirmDeleteUser :: "world \<Rightarrow> int \<Rightarrow> string \<Rightarrow> state \<Rightarrow> state" where
  "confirmDeleteUser w chatID data s =
     (let username = TrimPrefix data ''select_delete:''
      in sendAndTrack w chatID (Wording ''Yakin ingin menghapus user %s?'' [S username])
           [[''confirm_delete:'' @ username, ''cancel'']] s)"

definition systemInfo :: "world \<Rightarrow> int \<Rightarrow> state \<Rightarrow> error + state" where
  "systemInfo w chatID s =
     (case apiCall w ''GET'' ''/info'' [] s of
        (ApiError err, s1) \<Rightarrow> Inr (replyError w chatID (Wording ''Error API: %s'' [S err]) s1)
      | (ApiReply res, s1) \<Rightarrow>
          if map_of res ''success'' = Some (JBool True)
          then (case map_of res ''data'' of
                  Some (JObj data) \<Rightarrow>
                    (case getIpInfo w s1 of
                       (ipInfo, s2) \<Rightarrow>
                         (case getUsers w s2 of
                            (got, s3) \<Rightarrow>
                              let users = (case got of None \<Rightarrow> [] | Some us \<Rightarrow> us);
                                  activeUsers = int (length (filter (\<lambda>u. Status u \<noteq> ''Expired'') users))
                              in (case botSend w chatID
                                         (Wording ''INFO ZIVPN UDP''
                                            [S (DomainName (config s3)), J (map_of data ''public_ip''),
                                             J (map_of data ''port''), J (map_of data ''service''),
                                             S (City ipInfo), S (Isp ipInfo), N activeUsers,
                                             N (int (length users)), N (int (length (activeChats s3)))])
                                         [] (deleteLastMessage chatID s3) of
                                    (sent, s4) \<Rightarrow> Inr (showMainMenu w chatID s4))))
                | other \<Rightarrow> Inl TypeAssertion)
          else Inr (replyError w chatID (Wording ''Gagal mengambil info.'' []) s1))"

definition toggleMode :: "world \<Rightarrow> int \<Rightarrow> int \<Rightarrow> state \<Rightarrow> state" where
  "toggleMode w chatID userID s =
     (if userID \<noteq> AdminID (config s) then s
      else let cfg = (config s)\<lparr>Mode := (if Mode (config s) = ''public'' then ''private'' else ''public'')\<rparr>
           in (case botSend w chatID (Wording ''Mode diubah menjadi %s'' [S (Mode cfg)]) []
                      (emit (WriteConfig cfg) (s\<lparr>config := cfg\<rparr>)) of
                 (sent, s1) \<Rightarrow> showMainMenu w chatID s1))"

subsection \<open>Paging through the accounts\<close>

text \<open>Go's integer division truncates towards zero.\<close>

definition quo :: "int \<Rightarrow> int \<Rightarrow> int" where
  "quo a b = sgn a * sgn b * (\<bar>a\<bar> div \<bar>b\<bar>)"

text \<open>
  The page arithmetic of showUserSelection (perPage 10) and showUserSelectionForMessage
  (perPage 8), n being len(users): (totalPages, page, start, end).
\<close>

definition pageWindow :: "int \<Rightarrow> int \<Rightarrow> int \<Rightarrow> int \<times> int \<times> int \<times> int" where
  "pageWindow perPage n page =
     (let totalPages = quo (n + perPage - 1) perPage;
          page1 = (if page < 1 then 1 else page);
          page2 = (if page1 > totalPages then totalPages else page1);
          startIdx = (page2 - 1) * perPage;
          endIdx = startIdx + perPage;
          endIdx2 = (if endIdx > n then n else endIdx)
      in (totalPages, page2, startIdx, endIdx2))"

text \<open>
  The slice expression xs[lo:hi]. Go panics unless 0 <= lo <= hi <= cap(xs); the model
  checks against the length, which is at most the capacity.
\<close>

definition slice :: "'a list \<Rightarrow> int \<Rightarrow> int \<Rightarrow> error + 'a list" where
  "slice xs lo hi =
     (if 0 \<le> lo \<and> lo \<le> hi \<and> hi \<le> int (length xs)
      then Inr (take (nat (hi - lo)) (drop (nat lo) xs))
      else Inl IndexOutOfRange)"

text \<open>The verb %d.\<close>

function nat_to_dec :: "nat \<Rightarrow> string" where
  "nat_to_dec n =
     (if n < 10 then [char_of (48 + n)] else nat_to_dec (n div 10) @ [char_of (48 + n mod 10)])"
  by pat_completeness auto
termination
  by (relation "measure id") auto

definition itoa :: "int \<Rightarrow> string" where
  "itoa i = (if i < 0 then CHR ''-'' # nat_to_dec (nat (- i)) else nat_to_dec (nat i))"

text \<open>strings.Title only changes how the action is displayed: the argument is the action.\<close>

definition showUserSelection :: "world \<Rightarrow> int \<Rightarrow> int \<Rightarrow> string \<Rightarrow> state \<Rightarrow> error + state" where
  "showUserSelection w chatID page action s =
     (case getUsers w s of
        (None, s1) \<Rightarrow> Inr (replyError w chatID (Wording ''Gagal mengambil data user.'' []) s1)
      | (Some users, s1) \<Rightarrow>
          if length users = 0 then Inr (sendMessage w chatID (Wording ''Tidak ada user.'' []) s1)
          else
            (case pageWindow 10 (int (length users)) page of
               (totalPages, page2, startIdx, endIdx) \<Rightarrow>
                 (case slice users startIdx endIdx of
                    Inl e \<Rightarrow> Inl e
                  | Inr shown \<Rightarrow>
                      let rows = map (\<lambda>u. [''select_'' @ action @ '':'' @ Password u]) shown;
                          navRow =
                            (if page2 > 1 then [''page_'' @ action @ '':'' @ itoa (page2 - 1)] else []) @
                            (if page2 < totalPages then [''page_'' @ action @ '':'' @ itoa (page2 + 1)] else [])
                      in Inr (sendAndTrack w chatID
                                (Wording ''Pilih User untuk %s (Halaman %d/%d):'' [S action, N page2, N totalPages])
                                (rows @ (if length navRow > 0 then [navRow] else []) @ [[''cancel'']])
                                s1))))"

text \<open>
  Variant I shows the number of active chats; variant III (withActive False) does not, and
  gives the reason of a failed getUsers, which the oracle does not carry.
\<close>

definition showUsersForMessage :: "bool \<Rightarrow> world \<Rightarrow> int \<Rightarrow> int \<Rightarrow> state \<Rightarrow> error + state" where
  "showUsersForMessage withActive w chatID page s =
     (case getUsers w s of
        (None, s1) \<Rightarrow> Inr (replyError w chatID (Wording ''Gagal mengambil data user.'' []) s1)
      | (Some users, s1) \<Rightarrow>
          if length users = 0 then Inr (sendMessage w chatID (Wording ''Tidak ada user.'' []) s1)
          else
            (case pageWindow 8 (int (length users)) page of
               (totalPages, page2, startIdx, endIdx) \<Rightarrow>
                 (case slice users startIdx endIdx of
                    Inl e \<Rightarrow> Inl e
                  | Inr shown \<Rightarrow>
                      let activeCount = int (length (activeChats s1));
                          rows = map (\<lambda>u. [''select_user_msg:'' @ Password u]) shown;
                          navRow =
                            (if page2 > 1 then [''page_msg:'' @ itoa (page2 - 1)] else []) @
                            [''cancel''] @
                            (if page2 < totalPages then [''page_msg:'' @ itoa (page2 + 1)] else [])
                      in Inr (sendAndTrack w chatID
                                (Wording ''Pilih User untuk Private Message''
                                   ([N (int (length users))] @ (if withActive then [N activeCount] else []) @
                                    [N page2, N totalPages]))
                                (rows @ (if length navRow > 0 then [navRow] else []))
                                s1))))"

definition showUserSelectionForMessage :: "world \<Rightarrow> int \<Rightarrow> int \<Rightarrow> state \<Rightarrow> error + state" where
  "showUserSelectionForMessage w chatID page s = showUsersForMessage True w chatID page s"

definition showUserSelectionForMessage_III :: "world \<Rightarrow> int \<Rightarrow> int \<Rightarrow> state \<Rightarrow> error + state" where
  "showUserSelectionForMessage_III w chatID page s = showUsersForMessage False w chatID page s"

text \<open>
  handlePagination: parts[0][5:] panics when parts[0] is shorter than 5 bytes, parts[1]
  when the token has no colon; the error of Atoi is dropped.
\<close>

definition handlePagination :: "world \<Rightarrow> int \<Rightarrow> string \<Rightarrow> state \<Rightarrow> error + state" where
  "handlePagination w chatID data s =
     (case Split data CHR '':'' of
        [] \<Rightarrow> Inl IndexOutOfRange
      | p0 # ps \<Rightarrow>
          if length p0 < 5 then Inl IndexOutOfRange
          else (case ps of
                  [] \<Rightarrow> Inl IndexOutOfRange
                | p1 # rest \<Rightarrow> showUserSelection w chatID (fst (Atoi p1)) (drop 5 p0) s))"

subsection \<open>Messaging\<close>

definition showMessageMenu :: "world \<Rightarrow> int \<Rightarrow> state \<Rightarrow> state" where
  "showMessageMenu w chatID s =
     sendAndTrack w chatID (Wording ''Admin Messaging Pilih tipe pesan:'' [])
       [[''msg_broadcast'', ''msg_private''], [''msg_stats''], [''cancel'']] s"

definition showMessageMenu_III :: "world \<Rightarrow> int \<Rightarrow> state \<Rightarrow> state" where
  "showMessageMenu_III w chatID s =
     sendAndTrack w chatID
       (Wording ''Admin Messaging Active Users: %d Pilih tipe pesan:'' [N (int (length (activeChats s)) - 1)])
       [[''msg_broadcast'', ''msg_private''], [''msg_stats''], [''cancel'']] s"

definition startBroadcastMessage :: "world \<Rightarrow> int \<Rightarrow> int \<Rightarrow> state \<Rightarrow> state" where
  "startBroadcastMessage w chatID userID s =
     sendMessage w chatID (Wording ''Broadcast Message Masukkan pesan ... Ketik /cancel untuk membatalkan'' [])
       (s\<lparr>userStates := (userStates s)(userID \<mapsto> ''broadcast_message'')\<rparr>)"

definition startBroadcastMessage_III :: "world \<Rightarrow> int \<Rightarrow> int \<Rightarrow> state \<Rightarrow> state" where
  "startBroadcastMessage_III w chatID userID s =
     (let s1 = s\<lparr>userStates := (userStates s)(userID \<mapsto> ''broadcast_message'')\<rparr>
      in sendMessage w chatID
           (Wording ''Broadcast Message Target: %d active users ... Ketik 'cancel' untuk membatalkan''
              [N (int (length (activeChats s1)) - 1)])
           s1)"

definition startSelectUserForMessage :: "world \<Rightarrow> int \<Rightarrow> int \<Rightarrow> state \<Rightarrow> error + state" where
  "startSelectUserForMessage w chatID userID s = showUserSelectionForMessage w chatID 1 s"

definition startSelectUserForMessage_III :: "world \<Rightarrow> int \<Rightarrow> int \<Rightarrow> state \<Rightarrow> error + state" where
  "startSelectUserForMessage_III w chatID userID s = showUserSelectionForMessage_III w chatID 1 s"

text \<open>The prompt of variant III names another cancel word; the state change is the same.\<close>

definition startPrivateMessage :: "world \<Rightarrow> int \<Rightarrow> int \<Rightarrow> string \<Rightarrow> state \<Rightarrow> state" where
  "startPrivateMessage w chatID userID username s =
     sendMessage w chatID (Wording ''Private Message untuk %s Masukkan pesan yang ingin dikirim:'' [S username])
       (s\<lparr>tempUserData := (tempUserData s)(userID \<mapsto> [''target_user'' \<mapsto> username]),
          userStates := (userStates s)(userID \<mapsto> ''private_message'')\<rparr>)"

text \<open>
  Variant I sends the private message to the sessions in turn until one send succeeds.
\<close>

fun privateLoop :: "world \<Rightarrow> wording \<Rightarrow> (int \<times> ChatSession) list \<Rightarrow> state \<Rightarrow> bool \<times> state" where
  "privateLoop w body [] s = (False, s)"
| "privateLoop w body ((userID, session) # rest) s =
     (case botSend w (ChatID session) body [] s of
        (None, s1) \<Rightarrow> privateLoop w body rest s1
      | (Some sentID, s1) \<Rightarrow> (True, s1))"

definition sendPrivateMessageToUser :: "world \<Rightarrow> int \<Rightarrow> string \<Rightarrow> string \<Rightarrow> state \<Rightarrow> state" where
  "sendPrivateMessageToUser w chatID username message s =
     (if message = ''/cancel'' then cancelOperation w chatID (AdminID (config s)) s
      else
        (case getUsers w s of
           (None, s1) \<Rightarrow> replyError w chatID (Wording ''Gagal mengambil data user.'' []) s1
         | (Some users, s1) \<Rightarrow>
             (case find (\<lambda>u. Password u = username) users of
                None \<Rightarrow> replyError w chatID (Wording ''User %s tidak ditemukan.'' [S username]) s1
              | Some targetUser \<Rightarrow>
                  (case botSend w chatID (Wording ''Mengirim pesan ke %s...'' [S username]) [] s1 of
                     (sent0, s2) \<Rightarrow>
                       (case privateLoop w
                               (Wording ''PRIVATE MESSAGE FROM ADMIN''
                                  [S message, S username, S (Status targetUser), S (Expired targetUser)])
                               (activeChats s2) s2 of
                          (messageSent, s3) \<Rightarrow>
                            (case botSend w chatID
                                    (if messageSent
                                     then Wording ''Pesan Terkirim!''
                                            [S username, S (Status targetUser), S (Expired targetUser)]
                                     else Wording ''Gagal Mengirim Pesan'' [S username])
                                    [] s3 of
                               (sent1, s4) \<Rightarrow> showMainMenu w chatID s4))))))"

text \<open>Variant III looks the account up and reports; it sends nothing to the account's user.\<close>

definition sendPrivateMessageToUser_III :: "world \<Rightarrow> int \<Rightarrow> string \<Rightarrow> string \<Rightarrow> state \<Rightarrow> state" where
  "sendPrivateMessageToUser_III w chatID username message s =
     (if ToLower message = ''cancel'' then cancelOperation w chatID (AdminID (config s)) s
      else
        (case getUsers w
                (sendMessage w chatID
                   (Wording ''Mengirim pesan ke %s... Pesan: %s'' [S username, S (truncateString message 200)]) s) of
           (None, s1) \<Rightarrow> replyError w chatID (Wording ''Gagal mengambil data user.'' []) s1
         | (Some users, s1) \<Rightarrow>
             if \<not> list_ex (\<lambda>u. Password u = username) users
             then replyError w chatID (Wording ''User %s tidak ditemukan.'' [S username]) s1
             else (case botSend w chatID
                          (Wording ''Pesan Terkirim! Pesan telah dicatat''
                             [S username, S (truncateString message 100)])
                          [] s1 of
                     (sent, s2) \<Rightarrow> showMainMenu w chatID s2)))"

definition showMessageStats_II :: "world \<Rightarrow> int \<Rightarrow> state \<Rightarrow> state" where
  "showMessageStats_II w chatID s =
     (let sessions = map snd (activeChats s);
          regularCount = int (length (filter (\<lambda>c. Username c = []) sessions));
          adminCount = int (length (filter (\<lambda>c. Username c \<noteq> []) sessions))
      in snd (botSend w chatID
                (Wording ''Message Statistics''
                   [N (int (length (activeChats s))), N adminCount, N regularCount, N (lastSaveTime s)])
                [] s))"

definition showMessageStats_III :: "world \<Rightarrow> int \<Rightarrow> state \<Rightarrow> state" where
  "showMessageStats_III w chatID s =
     (case timeNow w s of
        (now, s1) \<Rightarrow>
          let sessions = map snd (activeChats s1);
              isAdmin = (\<lambda>c. Username c = ''admin'' \<or> UserID c = 8556981744);
              adminCount = int (length (filter isAdmin sessions));
              regularCount = int (length (filter (\<lambda>c. \<not> isAdmin c) sessions))
          in sendMessage w chatID
               (Wording ''Message Statistics''
                  [N (int (length (activeChats s1))), N adminCount, N regularCount, N now])
               s1)"

subsection \<open>Backup and restore\<close>

definition showBackupRestoreMenu :: "world \<Rightarrow> int \<Rightarrow> state \<Rightarrow> state" where
  "showBackupRestoreMenu w chatID s =
     sendAndTrack w chatID (Wording ''Backup & Restore Silakan pilih menu:'' [])
       [[''menu_backup_action'', ''menu_restore_action''], [''cancel'']] s"

definition backupFiles :: "string list" where
  "backupFiles = [''config.json'', ''users.json'', ''domain'', ''apikey'', ''api_port'']"

text \<open>
  performBackup: the readable files of the list go into an archive under /tmp, which is sent
  as a document and removed. The archive's name, which carries the time, is shortened.
\<close>

definition performBackup :: "world \<Rightarrow> int \<Rightarrow> state \<Rightarrow> state" where
  "performBackup w chatID s =
     (let s1 = sendMessage w chatID (Wording ''Sedang membuat backup...'' []) s;
          packed = filter (\<lambda>name. file_content w (''/etc/zivpn/'' @ name) \<noteq> None) backupFiles
      in (case ioResult w s1 of
            (False, s2) \<Rightarrow> replyError w chatID (Wording ''Gagal membuat file backup.'' []) s2
          | (True, s2) \<Rightarrow>
              emit (RemoveFile ''/tmp/zivpn-backup.zip'')
                (emit (SendDocument chatID packed) (deleteLastMessage chatID s2))))"

definition startRestore :: "world \<Rightarrow> int \<Rightarrow> int \<Rightarrow> state \<Rightarrow> state" where
  "startRestore w chatID userID s =
     sendMessage w chatID (Wording ''Restore Data Silakan kirim file ZIP backup Anda sekarang.'' [])
       (s\<lparr>userStates := (userStates s)(userID \<mapsto> ''waiting_restore_file'')\<rparr>)"

definition validFiles :: "string list" where
  "validFiles = [''config.json'', ''users.json'', ''bot-config.json'', ''domain'', ''apikey'', ''api_port'']"

text \<open>
  The loop over the archive's entries. An entry outside validFiles is skipped; so is one
  that cannot be opened, or whose destination cannot be created. io.Copy's result is
  ignored by the program; the model writes the entry's content.
\<close>

fun restoreEntries :: "world \<Rightarrow> zip_entry list \<Rightarrow> state \<Rightarrow> state" where
  "restoreEntries w [] s = s"
| "restoreEntries w (f # fs) s =
     (if Name f \<notin> set validFiles then restoreEntries w fs s
      else (case Content f of
              None \<Rightarrow> restoreEntries w fs s
            | Some bytes \<Rightarrow>
                (case ioResult w s of
                   (False, s1) \<Rightarrow> restoreEntries w fs s1
                 | (True, s1) \<Rightarrow>
                     restoreEntries w fs (emit (WriteFile (Join ''/etc/zivpn'' (Name f)) bytes) s1))))"

text \<open>
  processRestoreFile. The restart of the bot itself runs two seconds later in a goroutine;
  the model records it where it is started.
\<close>

definition processRestoreFile :: "world \<Rightarrow> Message \<Rightarrow> state \<Rightarrow> state" where
  "processRestoreFile w msg s =
     (let chatID = Chat_ID msg;
          userID = From_ID msg;
          s1 = sendMessage w chatID (Wording ''Sedang memproses file...'' []) (resetState userID s)
      in (case fetchArchive w s1 of
            (GetFileFailed, s2) \<Rightarrow> replyError w chatID (Wording ''Gagal mengunduh file.'' []) s2
          | (HttpGetFailed, s2) \<Rightarrow> replyError w chatID (Wording ''Gagal mengunduh file content.'' []) s2
          | (ReadFailed, s2) \<Rightarrow> replyError w chatID (Wording ''Gagal membaca file.'' []) s2
          | (NotZip, s2) \<Rightarrow> replyError w chatID (Wording ''File bukan format ZIP yang valid.'' []) s2
          | (Archive files, s2) \<Rightarrow>
              (case botSend w chatID (Wording ''Restore Berhasil!'' []) []
                      (emit (Restart ''zivpn-api'') (emit (Restart ''zivpn'') (restoreEntries w files s2))) of
                 (sent, s3) \<Rightarrow> showMainMenu w chatID (emit (Restart ''zivpn-bot'') s3))))"

subsection \<open>Greetings, help and status\<close>

definition sendWelcomeMessage :: "world \<Rightarrow> int \<Rightarrow> state \<Rightarrow> state" where
  "sendWelcomeMessage w chatID s =
     (case getIpInfo w s of
        (ipInfo, s1) \<Rightarrow>
          snd (botSend w chatID
                 (Wording ''Selamat Datang di ZiVPN Bot!''
                    [S (DomainName (config s1)), S (City ipInfo), S (Isp ipInfo)])
                 [] s1))"

definition sendHelpMessage_III :: "world \<Rightarrow> int \<Rightarrow> int \<Rightarrow> state \<Rightarrow> state" where
  "sendHelpMessage_III w chatID userID s =
     snd (botSend w chatID (Wording ''Bantuan ZiVPN Bot'' [B (userID = AdminID (config s))]) [] s)"

text \<open>checkStatus of variants II and III: it probes the local API and Telegram.\<close>

definition checkStatus_II :: "world \<Rightarrow> int \<Rightarrow> state \<Rightarrow> state" where
  "checkStatus_II w chatID s =
     (case ioResult w s of
        (apiStatus, s1) \<Rightarrow>
          (case ioResult w s1 of
             (telegramStatus, s2) \<Rightarrow>
               snd (botSend w chatID
                      (Wording ''System Status''
                         [B apiStatus, B telegramStatus, N (int (length (activeChats s2))),
                          S (Mode (config s2))])
                      [] s2)))"

subsection \<open>The conversation state machine\<close>

definition scratch :: "state \<Rightarrow> int \<Rightarrow> string \<Rightarrow> string" where
  "scratch s userID field =
     (case tempUserData s userID of
        None \<Rightarrow> []
      | Some m \<Rightarrow> (case m field of None \<Rightarrow> [] | Some v \<Rightarrow> v))"

text \<open>
  handleState has the same text in every variant; the broadcast and the private message it
  calls are the variant's own. Writing the name into a missing scratch map panics.
\<close>

definition handleStateWith ::
  "(world \<Rightarrow> int \<Rightarrow> string \<Rightarrow> state \<Rightarrow> state) \<Rightarrow> (world \<Rightarrow> int \<Rightarrow> string \<Rightarrow> string \<Rightarrow> state \<Rightarrow> state) \<Rightarrow>
   world \<Rightarrow> Message \<Rightarrow> string \<Rightarrow> state \<Rightarrow> error + state" where
  "handleStateWith broadcast private w msg st s =
     (let userID = From_ID msg;
          txt = TrimSpace (Text msg);
          chatID = Chat_ID msg
      in if st = ''create_username'' then
           (case validateUsername w chatID txt s of
              (False, s1) \<Rightarrow> Inr s1
            | (True, s1) \<Rightarrow>
                (case tempUserData s1 userID of
                   None \<Rightarrow> Inl NilMap
                 | Some m \<Rightarrow>
                     Inr (sendMessage w chatID (Wording ''Masukkan Durasi (hari):'' [])
                            (s1\<lparr>tempUserData := (tempUserData s1)(userID \<mapsto> m(''username'' \<mapsto> txt)),
                               userStates := (userStates s1)(userID \<mapsto> ''create_days'')\<rparr>))))
         else if st = ''create_days'' then
           (case validateNumber w chatID txt 1 9999 ''Durasi'' s of
              ((days, False), s1) \<Rightarrow> Inr s1
            | ((days, True), s1) \<Rightarrow>
                (case createUser w chatID (scratch s1 userID ''username'') days s1 of
                   Inl e \<Rightarrow> Inl e
                 | Inr s2 \<Rightarrow> Inr (resetState userID s2)))
         else if st = ''renew_days'' then
           (case validateNumber w chatID txt 1 9999 ''Durasi'' s of
              ((days, False), s1) \<Rightarrow> Inr s1
            | ((days, True), s1) \<Rightarrow>
                (case renewUser w chatID (scratch s1 userID ''username'') days s1 of
                   Inl e \<Rightarrow> Inl e
                 | Inr s2 \<Rightarrow> Inr (resetState userID s2)))
         else if st = ''broadcast_message'' then
           Inr (resetState userID (broadcast w chatID txt s))
         else if st = ''private_message'' then
           (case tempUserData s userID of
              None \<Rightarrow> Inr s
            | Some temp \<Rightarrow>
                Inr (resetState userID (private w chatID (scratch s userID ''target_user'') txt s)))
         else Inr s)"

definition handleState :: "world \<Rightarrow> Message \<Rightarrow> string \<Rightarrow> state \<Rightarrow> error + state" where
  "handleState = handleStateWith sendBroadcastMessage sendPrivateMessageToUser"

definition handleState_II :: "world \<Rightarrow> Message \<Rightarrow> string \<Rightarrow> state \<Rightarrow> error + state" where
  "handleState_II = handleStateWith sendBroadcastMessage_II sendPrivateMessageToUser"

definition handleState_III :: "world \<Rightarrow> Message \<Rightarrow> string \<Rightarrow> state \<Rightarrow> error + state" where
  "handleState_III = handleStateWith sendBroadcastMessage_III sendPrivateMessageToUser_III"

subsection \<open>The event router\<close>

text \<open>Variant I: a text that is neither awaited nor a command gets no answer.\<close>

definition handleMessage :: "world \<Rightarrow> Message \<Rightarrow> state \<Rightarrow> error + state" where
  "handleMessage w msg s0 =
     (let chatID = Chat_ID msg;
          userID = From_ID msg;
          s = saveChatSession w userID chatID s0
      in if \<not> isAllowed (config s) userID
         then Inr (replyError w chatID (Wording ''Akses Ditolak. Bot ini Private.'' []) s)
         else if Document msg \<noteq> None \<and> userID = AdminID (config s) \<and>
                 userStates s userID = Some ''waiting_restore_file''
         then Inr (processRestoreFile w msg s)
         else (case userStates s userID of
                 Some st \<Rightarrow> handleState w msg st s
               | None \<Rightarrow>
                   if IsCommand msg then
                     (if Command msg = ''start''
                      then Inr (showMainMenu w chatID (sendWelcomeMessage w chatID s))
                      else if Command msg = ''broadcast''
                      then Inr (if userID = AdminID (config s) then startBroadcastMessage w chatID userID s else s)
                      else if Command msg = ''message''
                      then (if userID = AdminID (config s) then startSelectUserForMessage w chatID userID s
                            else Inr s)
                      else Inr (replyError w chatID (Wording ''Perintah tidak dikenal.'' []) s))
                   else Inr s))"

definition handleMessage_II :: "world \<Rightarrow> Message \<Rightarrow> state \<Rightarrow> error + state" where
  "handleMessage_II w msg s0 =
     (let chatID = Chat_ID msg;
          userID = From_ID msg;
          username = From_UserName msg;
          s = saveChatSession_II w userID chatID username s0
      in if \<not> isAllowed (config s) userID
         then Inr (replyError w chatID (Wording ''Akses Ditolak. Bot ini Private.'' []) s)
         else if Document msg \<noteq> None \<and> userID = AdminID (config s) \<and>
                 userStates s userID = Some ''waiting_restore_file''
         then Inr (processRestoreFile w msg s)
         else (case userStates s userID of
                 Some st \<Rightarrow> handleState_II w msg st s
               | None \<Rightarrow>
                   if IsCommand msg then
                     (if Command msg = ''start''
                      then Inr (showMainMenu w chatID (sendWelcomeMessage w chatID s))
                      else if Command msg = ''broadcast''
                      then Inr (if userID = AdminID (config s) then startBroadcastMessage w chatID userID s else s)
                      else if Command msg = ''message''
                      then (if userID = AdminID (config s) then startSelectUserForMessage w chatID userID s
                            else Inr s)
                      else if Command msg = ''status''
                      then Inr (checkStatus_II w chatID s)
                      else Inr (replyError w chatID (Wording ''Perintah tidak dikenal.'' []) s))
                   else Inr (showMainMenu w chatID s)))"

definition handleMessage_III :: "world \<Rightarrow> Message \<Rightarrow> state \<Rightarrow> error + state" where
  "handleMessage_III w msg s0 =
     (let chatID = Chat_ID msg;
          userID = From_ID msg;
          username = From_UserName msg;
          s = saveChatSession_II w userID chatID username s0
      in if \<not> isAllowed (config s) userID
         then Inr (replyError w chatID (Wording ''Akses Ditolak. Bot ini Private.'' []) s)
         else if Document msg \<noteq> None \<and> userID = AdminID (config s) \<and>
                 userStates s userID = Some ''waiting_restore_file''
         then Inr (processRestoreFile w msg s)
         else (case userStates s userID of
                 Some st \<Rightarrow> handleState_III w msg st s
               | None \<Rightarrow>
                   if IsCommand msg then
                     (if Command msg = ''start''
                      then Inr (showMainMenu w chatID (sendWelcomeMessage w chatID s))
                      else if Command msg = ''broadcast''
                      then Inr (if userID = AdminID (config s) then startBroadcastMessage_III w chatID userID s
                                else s)
                      else if Command msg = ''message''
                      then Inr (if userID = AdminID (config s) then showMessageMenu_III w chatID s else s)
                      else if Command msg = ''status''
                      then Inr (checkStatus_II w chatID s)
                      else if Command msg = ''help''
                      then Inr (sendHelpMessage_III w chatID userID s)
                      else Inr (replyError w chatID (Wording ''Perintah tidak dikenal.'' []) s))
                   else Inr (showMainMenu w chatID s)))"

text \<open>
  The cases of the switch in handleCallback, in the order of the source; \<open>route\<close> is the
  first case whose condition holds. Variant I has no case for msg_stats and no default.
\<close>

datatype branch =
    MenuCreate | MenuDelete | MenuRenew | MenuList | MenuInfo | MenuBackupRestore | MenuMessage
  | MenuBackupAction | MenuRestoreAction | MsgBroadcast | MsgPrivate | MsgStats
  | Page | PageMsg | SelectRenew | SelectDelete | SelectUserMsg | ConfirmDelete
  | ToggleMode | Cancel | Default

definition route :: "string \<Rightarrow> branch" where
  "route data =
     (if data = ''menu_create'' then MenuCreate
      else if data = ''menu_delete'' then MenuDelete
      else if data = ''menu_renew'' then MenuRenew
      else if data = ''menu_list'' then MenuList
      else if data = ''menu_info'' then MenuInfo
      else if data = ''menu_backup_restore'' then MenuBackupRestore
      else if data = ''menu_message'' then MenuMessage
      else if data = ''menu_backup_action'' then MenuBackupAction
      else if data = ''menu_restore_action'' then MenuRestoreAction
      else if data = ''msg_broadcast'' then MsgBroadcast
      else if data = ''msg_private'' then MsgPrivate
      else if data = ''msg_stats'' then MsgStats
      else if HasPrefix data ''page_'' then Page
      else if HasPrefix data ''page_msg:'' then PageMsg
      else if HasPrefix data ''select_renew:'' then SelectRenew
      else if HasPrefix data ''select_delete:'' then SelectDelete
      else if HasPrefix data ''select_user_msg:'' then SelectUserMsg
      else if HasPrefix data ''confirm_delete:'' then ConfirmDelete
      else if data = ''toggle_mode'' then ToggleMode
      else if data = ''cancel'' then Cancel
      else Default)"

definition adminOnly :: "int \<Rightarrow> state \<Rightarrow> (state \<Rightarrow> state) \<Rightarrow> error + state" where
  "adminOnly userID s f = Inr (if userID = AdminID (config s) then f s else s)"

definition adminOnlyE :: "int \<Rightarrow> state \<Rightarrow> (state \<Rightarrow> error + state) \<Rightarrow> error + state" where
  "adminOnlyE userID s f = (if userID = AdminID (config s) then f s else Inr s)"

text \<open>The cases that all variants share.\<close>

definition commonCase :: "world \<Rightarrow> branch \<Rightarrow> int \<Rightarrow> int \<Rightarrow> string \<Rightarrow> state \<Rightarrow> error + state" where
  "commonCase w b chatID userID data s =
     (case b of
        MenuCreate \<Rightarrow> Inr (startCreateUser w chatID userID s)
      | MenuDelete \<Rightarrow> showUserSelection w chatID 1 ''delete'' s
      | MenuRenew \<Rightarrow> showUserSelection w chatID 1 ''renew'' s
      | MenuList \<Rightarrow> adminOnlyE userID s (listUsers w chatID)
      | MenuInfo \<Rightarrow> adminOnlyE userID s (systemInfo w chatID)
      | MenuBackupRestore \<Rightarrow> adminOnly userID s (showBackupRestoreMenu w chatID)
      | MenuBackupAction \<Rightarrow> adminOnly userID s (performBackup w chatID)
      | MenuRestoreAction \<Rightarrow> adminOnly userID s (startRestore w chatID userID)
      | Page \<Rightarrow> handlePagination w chatID data s
      | SelectRenew \<Rightarrow> Inr (startRenewUser w chatID userID data s)
      | SelectDelete \<Rightarrow> Inr (confirmDeleteUser w chatID data s)
      | SelectUserMsg \<Rightarrow>
          Inr (startPrivateMessage w chatID userID (TrimPrefix data ''select_user_msg:'') s)
      | ConfirmDelete \<Rightarrow> Inr (deleteUser w chatID (TrimPrefix data ''confirm_delete:'') s)
      | ToggleMode \<Rightarrow> Inr (toggleMode w chatID userID s)
      | Cancel \<Rightarrow> Inr (cancelOperation w chatID userID s)
      | other \<Rightarrow> Inr s)"

definition answer :: "CallbackQuery \<Rightarrow> string \<Rightarrow> state \<Rightarrow> state" where
  "answer query txt s = emit (AnswerCallback (Query_ID query) txt) s"

definition denied :: "BotConfig \<Rightarrow> int \<Rightarrow> string \<Rightarrow> bool" where
  "denied cfg userID data = (\<not> isAllowed cfg userID \<and> (data \<noteq> ''toggle_mode'' \<or> userID \<noteq> AdminID cfg))"

text \<open>Variant I checks the access first and records the session of an admitted user only.\<close>

definition handleCallback :: "world \<Rightarrow> CallbackQuery \<Rightarrow> state \<Rightarrow> error + state" where
  "handleCallback w query s0 =
     (let userID = Query_From_ID query;
          chatID = Query_Chat_ID query;
          data = Data query
      in if denied (config s0) userID data then Inr (answer query ''Akses Ditolak'' s0)
         else
           let s = saveChatSession w userID chatID s0
           in (case (case route data of
                       MenuMessage \<Rightarrow> adminOnly userID s (showMessageMenu w chatID)
                     | MsgBroadcast \<Rightarrow> adminOnly userID s (startBroadcastMessage w chatID userID)
                     | MsgPrivate \<Rightarrow> adminOnlyE userID s (startSelectUserForMessage w chatID userID)
                     | MsgStats \<Rightarrow> Inr s
                     | PageMsg \<Rightarrow>
                         showUserSelectionForMessage w chatID (fst (Atoi (TrimPrefix data ''page_msg:''))) s
                     | Default \<Rightarrow> Inr s
                     | b \<Rightarrow> commonCase w b chatID userID data s) of
                 Inl e \<Rightarrow> Inl e
               | Inr s1 \<Rightarrow> Inr (answer query [] s1)))"

text \<open>
  Variants II and III record the session first. Their default case answers the query, and
  the answer after the switch follows.
\<close>

definition handleCallback_II :: "world \<Rightarrow> CallbackQuery \<Rightarrow> state \<Rightarrow> error + state" where
  "handleCallback_II w query s0 =
     (let userID = Query_From_ID query;
          chatID = Query_Chat_ID query;
          data = Data query;
          s = saveChatSession_II w userID chatID (Query_From_UserName query) s0
      in if denied (config s) userID data then Inr (answer query ''Akses Ditolak'' s)
         else
           (case (case route data of
                    MenuMessage \<Rightarrow> adminOnly userID s (showMessageMenu w chatID)
                  | MsgBroadcast \<Rightarrow> adminOnly userID s (startBroadcastMessage w chatID userID)
                  | MsgPrivate \<Rightarrow> adminOnlyE userID s (startSelectUserForMessage w chatID userID)
                  | MsgStats \<Rightarrow> adminOnly userID s (showMessageStats_II w chatID)
                  | PageMsg \<Rightarrow>
                      showUserSelectionForMessage w chatID (fst (Atoi (TrimPrefix data ''page_msg:''))) s
                  | Default \<Rightarrow> Inr (answer query ''Aksi tidak dikenal'' s)
                  | b \<Rightarrow> commonCase w b chatID userID data s) of
              Inl e \<Rightarrow> Inl e
            | Inr s1 \<Rightarrow> Inr (answer query [] s1)))"

definition handleCallback_III :: "world \<Rightarrow> CallbackQuery \<Rightarrow> state \<Rightarrow> error + state" where
  "handleCallback_III w query s0 =
     (let userID = Query_From_ID query;
          chatID = Query_Chat_ID query;
          data = Data query;
          s = saveChatSession_II w userID chatID (Query_From_UserName query) s0
      in if denied (config s) userID data then Inr (answer query ''Akses Ditolak'' s)
         else
           (case (case route data of
                    MenuMessage \<Rightarrow> adminOnly userID s (showMessageMenu_III w chatID)
                  | MsgBroadcast \<Rightarrow> adminOnly userID s (startBroadcastMessage_III w chatID userID)
                  | MsgPrivate \<Rightarrow> adminOnlyE userID s (startSelectUserForMessage_III w chatID userID)
                  | MsgStats \<Rightarrow> adminOnly userID s (showMessageStats_III w chatID)
                  | PageMsg \<Rightarrow>
                      showUserSelectionForMessage_III w chatID (fst (Atoi (TrimPrefix data ''page_msg:''))) s
                  | Default \<Rightarrow> Inr (answer query ''Aksi tidak dikenal'' s)
                  | b \<Rightarrow> commonCase w b chatID userID data s) of
              Inl e \<Rightarrow> Inl e
            | Inr s1 \<Rightarrow> Inr (answer query [] s1)))"

section \<open>Observations on a trace\<close>

definition is_broadcast_tag :: "string \<Rightarrow> bool" where
  "is_broadcast_tag t = (t = ''BROADCAST MESSAGE'' \<or> t = ''BROADCAST MESSAGE FROM ADMIN'')"

fun attempt_of :: "effect \<Rightarrow> (int \<times> arg list \<times> int option) list" where
  "attempt_of (Send chatID (Wording t args) kb r) = (if is_broadcast_tag t then [(chatID, args, r)] else [])"
| "attempt_of e = []"

definition attempts :: "effect list \<Rightarrow> (int \<times> arg list \<times> int option) list" where
  "attempts tr = concat (map attempt_of tr)"

fun report_of :: "effect \<Rightarrow> (int \<times> int \<times> int) list" where
  "report_of (Send chatID (Wording t (N a # N b # rest)) kb r) =
     (if t = ''Broadcast Selesai!'' then [(chatID, a, b)] else [])"
| "report_of e = []"

definition reports :: "effect list \<Rightarrow> (int \<times> int \<times> int) list" where
  "reports tr = concat (map report_of tr)"

text \<open>The recipients the range reaches: the keys that are registered and not the administrator's.\<close>

definition recipients :: "int \<Rightarrow> (int \<times> ChatSession) list \<Rightarrow> int list \<Rightarrow> (int \<times> ChatSession) list" where
  "recipients admin reg ks =
     List.map_filter (\<lambda>k. if k = admin then None else map_option (Pair k) (map_of reg k)) ks"

text \<open>Each recipient with the answer the transport gives at its turn.\<close>

fun outcomes :: "world \<Rightarrow> nat \<Rightarrow> 'a list \<Rightarrow> ('a \<times> int option) list" where
  "outcomes w t [] = []"
| "outcomes w t (x # xs) = (x, send_result w t) # outcomes w (Suc t) xs"

definition failed_keys :: "((int \<times> ChatSession) \<times> int option) list \<Rightarrow> int list" where
  "failed_keys os = map (fst \<circ> fst) (filter (\<lambda>x. snd x = None) os)"

definition loop_trace :: "string \<Rightarrow> string \<Rightarrow> nat \<Rightarrow> ((int \<times> ChatSession) \<times> int option) list \<Rightarrow> effect list" where
  "loop_trace tag message ms os =
     concat (map (\<lambda>x. [Send (ChatID (snd (fst x))) (Wording tag [S message]) [] (snd x), Sleep ms]) os)"

definition failed :: "int \<times> arg list \<times> int option \<Rightarrow> bool" where
  "failed a = (snd (snd a) = None)"

text \<open>What showMainMenu, and so cancelOperation, adds to the trace.\<close>

definition menu_effects :: "world \<Rightarrow> int \<Rightarrow> state \<Rightarrow> effect list" where
  "menu_effects w chatID s =
     (case lastMessageIDs s chatID of None \<Rightarrow> [] | Some msgID \<Rightarrow> [DeleteMessage chatID msgID]) @
     [Send chatID
        (Wording ''ZIVPN UDP MENU''
           [S (if DomainName (config s) = [] then ''Not Configured'' else DomainName (config s)),
            S (City (ip_result w (tick s))), S (Isp (ip_result w (tick s))),
            N (int (length (activeChats s)))])
        (getMainMenuKeyboard (config s) chatID)
        (send_result w (Suc (tick s)))]"

text \<open>
  The recipients of a broadcast started in state s, each with the answer the transport
  gives at its turn (the first call of the broadcast is the notice to the initiator).
\<close>

definition deliveries :: "world \<Rightarrow> state \<Rightarrow> ((int \<times> ChatSession) \<times> int option) list" where
  "deliveries w s =
     outcomes w (Suc (tick s)) (filter (\<lambda>p. fst p \<noteq> AdminID (config s)) (activeChats s))"

text \<open>
  A fan-out over the registry reg, reported to chatID: one attempt per session other than
  the administrator's, in the registry's order; N - 1 attempts when the administrator is
  registered; one report, with K failures and the other attempts as successes.
\<close>

definition fans_out :: "int \<Rightarrow> (int \<times> ChatSession) list \<Rightarrow> int \<Rightarrow> effect list \<Rightarrow> bool" where
  "fans_out admin reg chatID tr =
     (let K = int (length (filter failed (attempts tr)));
          N = int (length reg)
      in map fst (attempts tr) = map (ChatID \<circ> snd) (filter (\<lambda>p. fst p \<noteq> admin) reg) \<and>
         reports tr = [(chatID, int (length (attempts tr)) - K, K)] \<and>
         (admin \<in> fst ` set reg \<longrightarrow>
            int (length (attempts tr)) = N - 1 \<and> reports tr = [(chatID, N - 1 - K, K)]))"

text \<open>
  The scenario of the specification: the administrator (id 1), userA (id 2) and userB (id 3)
  are registered; the third call to the transport (the delivery to userB) fails.
\<close>

definition scenario_world :: world where
  "scenario_world =
     \<lparr>send_result = (\<lambda>n. if n = 2 then None else Some (int n)),
      api_result = (\<lambda>n. ApiError []),
      users_result = (\<lambda>n. None),
      ip_result = (\<lambda>n. \<lparr>City = [], Isp = [], Query = []\<rparr>),
      clock = (\<lambda>n. int n),
      io_ok = (\<lambda>n. True),
      download_result = (\<lambda>n. NotZip),
      file_content = (\<lambda>p. None)\<rparr>"

definition scenario_state :: state where
  "scenario_state =
     \<lparr>userStates = (\<lambda>u. if u = 1 then Some ''broadcast_message'' else None),
      tempUserData = (\<lambda>u. None),
      lastMessageIDs = (\<lambda>c. None),
      activeChats =
        [(1, \<lparr>UserID = 1, ChatID = 1, Username = ''admin'', Joined = 0\<rparr>),
         (2, \<lparr>UserID = 2, ChatID = 2, Username = ''userA'', Joined = 0\<rparr>),
         (3, \<lparr>UserID = 3, ChatID = 3, Username = ''userB'', Joined = 0\<rparr>)],
      lastSaveTime = 0,
      config = \<lparr>BotToken = ''token'', AdminID = 1, Mode = ''private'', DomainName = []\<rparr>,
      trace = [],
      tick = 0\<rparr>"

fun menu_of :: "effect \<Rightarrow> int list" where
  "menu_of (Send chatID (Wording t args) kb r) = (if t = ''ZIVPN UDP MENU'' then [chatID] else [])"
| "menu_of e = []"

definition menus :: "effect list \<Rightarrow> int list" where
  "menus tr = concat (map menu_of tr)"

text \<open>
  The flow of userID was aborted between s and s': the state and the scratch data are
  cleared, nothing was sent to a recipient, no report was made, and the idle menu was shown
  in the chat.
\<close>

definition flow_aborted :: "int \<Rightarrow> int \<Rightarrow> state \<Rightarrow> state \<Rightarrow> bool" where
  "flow_aborted userID chatID s s' =
     (userStates s' userID = None \<and> tempUserData s' userID = None \<and>
      attempts (new_effects s s') = [] \<and> reports (new_effects s s') = [] \<and>
      menus (new_effects s s') = [chatID])"

text \<open>
  The text was broadcast between s and s': every session other than the administrator's
  was sent the whole payload, one report was made, and the flow is over.
\<close>

definition fanned_out :: "int \<Rightarrow> string \<Rightarrow> state \<Rightarrow> state \<Rightarrow> bool" where
  "fanned_out userID payload s s' =
     (userStates s' userID = None \<and> tempUserData s' userID = None \<and>
      map (\<lambda>a. (fst a, fst (snd a))) (attempts (new_effects s s')) =
        map (\<lambda>p. (ChatID (snd p), [S payload])) (filter (\<lambda>p. fst p \<noteq> AdminID (config s)) (activeChats s)) \<and>
      length (reports (new_effects s s')) = 1)"

definition scenario_msg :: "string \<Rightarrow> Message" where
  "scenario_msg txt =
     \<lparr>Chat_ID = 1, From_ID = 1, From_UserName = ''admin'', Text = txt, Document = None,
      IsCommand = False, Command = []\<rparr>"

fun write_of :: "effect \<Rightarrow> (string \<times> string) list" where
  "write_of (WriteFile path bytes) = [(path, bytes)]"
| "write_of e = []"

definition writes :: "effect list \<Rightarrow> (string \<times> string) list" where
  "writes tr = concat (map write_of tr)"

text \<open>
  A path directly inside the configuration directory: /etc/zivpn/ and one more component,
  which is neither empty nor a dot name.
\<close>

definition in_config_dir :: "string \<Rightarrow> bool" where
  "in_config_dir path =
     (HasPrefix path ''/etc/zivpn/'' \<and>
      (let name = drop 11 path
       in name \<noteq> [] \<and> name \<noteq> ''.'' \<and> name \<noteq> ''..'' \<and> CHR ''/'' \<notin> set name))"

text \<open>An upload with entries inside and outside the list, one of which cannot be opened.\<close>

definition restore_world :: world where
  "restore_world =
     scenario_world\<lparr>download_result := (\<lambda>n. Archive
       [\<lparr>Name = ''config.json'', Content = Some ''A''\<rparr>,
        \<lparr>Name = ''../../etc/passwd'', Content = Some ''B''\<rparr>,
        \<lparr>Name = ''evil.sh'', Content = Some ''C''\<rparr>,
        \<lparr>Name = ''domain'', Content = None\<rparr>,
        \<lparr>Name = ''sub/apikey'', Content = Some ''D''\<rparr>,
        \<lparr>Name = ''apikey'', Content = Some ''K''\<rparr>])\<rparr>"

definition restore_msg :: Message where
  "restore_msg =
     \<lparr>Chat_ID = 1, From_ID = 1, From_UserName = ''admin'', Text = [], Document = Some ''file-1'',
      IsCommand = False, Command = []\<rparr>"

text \<open>What sendAndTrack adds to the trace.\<close>

definition track_effects :: "world \<Rightarrow> int \<Rightarrow> wording \<Rightarrow> keyboard \<Rightarrow> state \<Rightarrow> effect list" where
  "track_effects w chatID t kb s =
     (case lastMessageIDs s chatID of None \<Rightarrow> [] | Some msgID \<Rightarrow> [DeleteMessage chatID msgID]) @
     [Send chatID t kb (send_result w (tick s))]"

fun sent_of :: "effect \<Rightarrow> (int \<times> string) list" where
  "sent_of (Send chatID (Wording t args) kb r) = [(chatID, t)]"
| "sent_of e = []"

text \<open>The texts sent: the chat and the wording's tag of each.\<close>

definition sent :: "effect list \<Rightarrow> (int \<times> string) list" where
  "sent tr = concat (map sent_of tr)"

text \<open>User 1 has pressed Create: the name is awaited and the scratch data is empty.\<close>

definition create_state :: state where
  "create_state =
     scenario_state\<lparr>userStates := (\<lambda>u. if u = 1 then Some ''create_username'' else None),
                    tempUserData := (\<lambda>u. if u = 1 then Some Map.empty else None)\<rparr>"

text \<open>Twelve accounts: two pages of ten, two pages of eight.\<close>

definition twelve_users :: "UserData list" where
  "twelve_users = replicate 12 \<lparr>Password = ''alice'', Expired = ''2030-01-01'', Status = ''Active'', IpLimit = 1\<rparr>"

text \<open>A click on the Next button of the private-message pager, by the administrator.\<close>

definition page_msg_query :: CallbackQuery where
  "page_msg_query =
     \<lparr>Query_ID = ''q1'', Query_From_ID = 1, Query_From_UserName = ''admin'', Query_Chat_ID = 1,
      Data = ''page_msg:2''\<rparr>"

fun ack_of :: "effect \<Rightarrow> (string \<times> string) list" where
  "ack_of (AnswerCallback queryID txt) = [(queryID, txt)]"
| "ack_of e = []"

text \<open>The answers to callback queries: the query and the notice of each.\<close>

definition acks :: "effect list \<Rightarrow> (string \<times> string) list" where
  "acks tr = concat (map ack_of tr)"

text \<open>
  The bot in private mode, with the administrator and two users registered, nobody in a flow.
\<close>

definition idle_state :: state where
  "idle_state = scenario_state\<lparr>userStates := (\<lambda>u. None)\<rparr>"

text \<open>User 7, who is not registered, presses a button.\<close>

definition stranger_query :: CallbackQuery where
  "stranger_query =
     \<lparr>Query_ID = ''q7'', Query_From_ID = 7, Query_From_UserName = ''mallory'', Query_Chat_ID = 7,
      Data = ''menu_create''\<rparr>"

text \<open>The administrator's client sends a token no button carries.\<close>

definition unknown_query :: CallbackQuery where
  "unknown_query =
     \<lparr>Query_ID = ''q2'', Query_From_ID = 1, Query_From_UserName = ''admin'', Query_Chat_ID = 1,
      Data = ''foo''\<rparr>"

text \<open>User 7, who is not registered, writes to the bot.\<close>

definition stranger_msg :: Message where
  "stranger_msg =
     \<lparr>Chat_ID = 7, From_ID = 7, From_UserName = ''mallory'', Text = ''/start'', Document = None,
      IsCommand = True, Command = ''start''\<rparr>"

text \<open>The cancel button, pressed by the administrator.\<close>

definition cancel_query :: CallbackQuery where
  "cancel_query =
     \<lparr>Query_ID = ''q3'', Query_From_ID = 1, Query_From_UserName = ''admin'', Query_Chat_ID = 1,
      Data = ''cancel''\<rparr>"

text \<open>A page token without a colon, which no button of the bot carries.\<close>

definition broken_page_query :: CallbackQuery where
  "broken_page_query =
     \<lparr>Query_ID = ''q4'', Query_From_ID = 1, Query_From_UserName = ''admin'', Query_Chat_ID = 1,
      Data = ''page_delete''\<rparr>"

text \<open>
  The click of query has ended the user's flow between s and s': the state and the scratch
  data are cleared, the idle menu was shown once, and the click was acknowledged once.
\<close>

definition idle_again :: "CallbackQuery \<Rightarrow> state \<Rightarrow> state \<Rightarrow> bool" where
  "idle_again query s s' =
     (userStates s' (Query_From_ID query) = None \<and> tempUserData s' (Query_From_ID query) = None \<and>
      menus (new_effects s s') = [Query_Chat_ID query] \<and>
      acks (new_effects s s') = [(Query_ID query, [])])"

section \<open>Properties\<close>

subsection \<open>The broadcast loop\<close>

lemma recipients_Nil [simp]: "recipients admin reg [] = []"
  by (simp add: recipients_def List.map_filter_simps)

lemma recipients_Cons:
  "recipients admin reg (k # ks) =
     (case map_of reg k of None \<Rightarrow> recipients admin reg ks
      | Some c \<Rightarrow> if k = admin then recipients admin reg ks else (k, c) # recipients admin reg ks)"
  by (simp add: recipients_def List.map_filter_simps split: option.splits)

lemma recipients_delete:
  "k \<notin> set ks \<Longrightarrow> recipients admin (AList.delete k reg) ks = recipients admin reg ks"
  by (induction ks) (auto simp: recipients_Cons split: option.splits)

lemma failed_keys_simps [simp]:
  "failed_keys [] = []"
  "failed_keys (x # os) = (if snd x = None then fst (fst x) # failed_keys os else failed_keys os)"
  by (simp_all add: failed_keys_def)

lemma loop_trace_simps [simp]:
  "loop_trace tag message ms [] = []"
  "loop_trace tag message ms (x # os) =
     Send (ChatID (snd (fst x))) (Wording tag [S message]) [] (snd x) # Sleep ms # loop_trace tag message ms os"
  by (simp_all add: loop_trace_def)

lemma filter_delete:
  "filter (\<lambda>p. fst p \<notin> set F) (AList.delete k reg) = filter (\<lambda>p. fst p \<notin> set (k # F)) reg"
  by (induction reg) (auto simp: AList.delete_eq)

lemma broadcastLoop_char:
  "distinct ks \<Longrightarrow>
   broadcastLoop w message ks (a, b, s) =
     (let os = outcomes w (tick s) (recipients (AdminID (config s)) (activeChats s) ks)
      in (a + int (length (filter (\<lambda>x. snd x \<noteq> None) os)),
          b + int (length (filter (\<lambda>x. snd x = None) os)),
          s\<lparr>activeChats := filter (\<lambda>p. fst p \<notin> set (failed_keys os)) (activeChats s),
            trace := trace s @ loop_trace ''BROADCAST MESSAGE'' message 100 os,
            tick := tick s + length os\<rparr>))"
proof (induction ks arbitrary: a b s)
  case Nil
  then show ?case by simp
next
  case (Cons k ks)
  from Cons.prems have k: "k \<notin> set ks" and d: "distinct ks" by simp_all
  note IH = Cons.IH [OF d]
  show ?case
  proof (cases "map_of (activeChats s) k")
    case None
    then show ?thesis by (simp add: IH recipients_Cons)
  next
    case (Some c)
    show ?thesis
    proof (cases "k = AdminID (config s)")
      case True
      with Some show ?thesis by (simp add: IH recipients_Cons)
    next
      case False
      show ?thesis
      proof (cases "send_result w (tick s)")
        case None
        with Some False k show ?thesis
          by (simp add: IH recipients_Cons botSend_def emit_def step_def Let_def
              recipients_delete filter_delete)
      next
        case (Some sentID)
        with \<open>map_of (activeChats s) k = Some c\<close> False k show ?thesis
          by (simp add: IH recipients_Cons botSend_def emit_def step_def Let_def)
      qed
    qed
  qed
qed

lemma attempts_simps [simp]:
  "attempts [] = []"
  "attempts (e # tr) = attempt_of e @ attempts tr"
  "attempts (tr @ tr') = attempts tr @ attempts tr'"
  by (simp_all add: attempts_def)

lemma reports_simps [simp]:
  "reports [] = []"
  "reports (e # tr) = report_of e @ reports tr"
  "reports (tr @ tr') = reports tr @ reports tr'"
  by (simp_all add: reports_def)

lemma new_effects_append [simp]: "trace s' = trace s @ X \<Longrightarrow> new_effects s s' = X"
  by (simp add: new_effects_def)

lemma outcomes_fst [simp]: "map fst (outcomes w t xs) = xs"
  by (induction xs arbitrary: t) simp_all

lemma outcomes_length [simp]: "length (outcomes w t xs) = length xs"
  by (induction xs arbitrary: t) simp_all

lemma attempts_loop_trace:
  "is_broadcast_tag tag \<Longrightarrow>
   attempts (loop_trace tag message ms os) = map (\<lambda>x. (ChatID (snd (fst x)), [S message], snd x)) os"
  by (induction os) simp_all

lemma reports_loop_trace: "is_broadcast_tag tag \<Longrightarrow> reports (loop_trace tag message ms os) = []"
  by (induction os) (auto simp: is_broadcast_tag_def)

lemma recipients_sublist:
  "distinct (map fst xs) \<Longrightarrow> \<forall>p \<in> set xs. map_of reg (fst p) = Some (snd p) \<Longrightarrow>
   recipients admin reg (map fst xs) = filter (\<lambda>p. fst p \<noteq> admin) xs"
  by (induction xs) (auto simp: recipients_Cons)

lemma recipients_all:
  "distinct (map fst reg) \<Longrightarrow> recipients admin reg (map fst reg) = filter (\<lambda>p. fst p \<noteq> admin) reg"
  by (rule recipients_sublist) auto

lemma length_others:
  "distinct (map fst reg) \<Longrightarrow> admin \<in> fst ` set reg \<Longrightarrow>
   length (filter (\<lambda>p. fst p \<noteq> admin) reg) = length reg - 1"
proof (induction reg)
  case Nil
  then show ?case by simp
next
  case (Cons p reg)
  show ?case
  proof (cases "fst p = admin")
    case True
    with Cons.prems have "admin \<notin> fst ` set reg" by auto
    then have "filter (\<lambda>p. fst p \<noteq> admin) reg = reg" by (auto simp: filter_id_conv)
    with True show ?thesis by simp
  next
    case False
    with Cons.prems have "admin \<in> fst ` set reg" and "distinct (map fst reg)" by auto
    with Cons.IH have "length (filter (\<lambda>p. fst p \<noteq> admin) reg) = length reg - 1" by simp
    moreover from \<open>admin \<in> fst ` set reg\<close> have "reg \<noteq> []" by auto
    ultimately show ?thesis using False by (cases reg) simp_all
  qed
qed

lemma showMainMenu_trace: "trace (showMainMenu w chatID s) = trace s @ menu_effects w chatID s"
  by (simp add: showMainMenu_def menu_effects_def getIpInfo_def sendAndTrack_def botSend_def
      deleteLastMessage_def emit_def step_def Let_def split: option.splits)

lemma attempts_menu [simp]: "attempts (menu_effects w chatID s) = []"
  by (simp add: menu_effects_def is_broadcast_tag_def split: option.splits)

lemma reports_menu [simp]: "reports (menu_effects w chatID s) = []"
  by (simp add: menu_effects_def split: option.splits)

lemma showMainMenu_frame [simp]:
  "activeChats (showMainMenu w chatID s) = activeChats s"
  "userStates (showMainMenu w chatID s) = userStates s"
  "tempUserData (showMainMenu w chatID s) = tempUserData s"
  "config (showMainMenu w chatID s) = config s"
  by (simp_all add: showMainMenu_def menu_effects_def getIpInfo_def sendAndTrack_def botSend_def
      deleteLastMessage_def emit_def step_def Let_def split: option.splits)

lemma sendBroadcastMessage_effects:
  assumes "distinct (map fst (activeChats s))" and "message \<noteq> ''/cancel''"
  shows "attempts (new_effects s (sendBroadcastMessage w chatID message s)) =
           map (\<lambda>x. (ChatID (snd (fst x)), [S message], snd x)) (deliveries w s)"
    and "reports (new_effects s (sendBroadcastMessage w chatID message s)) =
           [(chatID, int (length (filter (\<lambda>x. snd x \<noteq> None) (deliveries w s))),
                     int (length (filter (\<lambda>x. snd x = None) (deliveries w s))))]"
    and "activeChats (sendBroadcastMessage w chatID message s) =
           filter (\<lambda>p. fst p \<notin> set (failed_keys (deliveries w s))) (activeChats s)"
  using assms
  by (simp_all add: sendBroadcastMessage_def botSend_def emit_def step_def Let_def saveChats_def
       broadcastLoop_char recipients_all showMainMenu_trace new_effects_def deliveries_def
       attempts_loop_trace reports_loop_trace is_broadcast_tag_def split: prod.splits)

lemma broadcastLoop_II_char:
  "distinct ks \<Longrightarrow>
   broadcastLoop_II w message ks (a, b, fu, s) =
     (let os = outcomes w (tick s) (recipients (AdminID (config s)) (activeChats s) ks)
      in (a + int (length (filter (\<lambda>x. snd x \<noteq> None) os)),
          b + int (length (filter (\<lambda>x. snd x = None) os)),
          fu @ map (\<lambda>x. Username (snd (fst x))) (filter (\<lambda>x. snd x = None) os),
          s\<lparr>trace := trace s @ loop_trace ''BROADCAST MESSAGE FROM ADMIN'' message 50 os,
            tick := tick s + length os\<rparr>))"
proof (induction ks arbitrary: a b fu s)
  case Nil
  then show ?case by simp
next
  case (Cons k ks)
  from Cons.prems have d: "distinct ks" by simp
  note IH = Cons.IH [OF d]
  show ?case
    by (cases "map_of (activeChats s) k"; cases "k = AdminID (config s)"; cases "send_result w (tick s)")
       (simp_all add: IH recipients_Cons botSend_def emit_def step_def Let_def)
qed

lemma broadcastLoop_III_char:
  "distinct ks \<Longrightarrow>
   broadcastLoop_III w message ks (a, b, s) =
     (let os = outcomes w (tick s) (recipients (AdminID (config s)) (activeChats s) ks)
      in (a + int (length (filter (\<lambda>x. snd x \<noteq> None) os)),
          b + int (length (filter (\<lambda>x. snd x = None) os)),
          s\<lparr>trace := trace s @ loop_trace ''BROADCAST MESSAGE'' message 50 os,
            tick := tick s + length os\<rparr>))"
proof (induction ks arbitrary: a b s)
  case Nil
  then show ?case by simp
next
  case (Cons k ks)
  from Cons.prems have d: "distinct ks" by simp
  note IH = Cons.IH [OF d]
  show ?case
    by (cases "map_of (activeChats s) k"; cases "k = AdminID (config s)"; cases "send_result w (tick s)")
       (simp_all add: IH recipients_Cons botSend_def emit_def step_def Let_def)
qed

lemma sendBroadcastMessage_II_effects:
  assumes "distinct (map fst (activeChats s))" and "\<not> (ToLower message = ''/cancel'' \<or> message = ''cancel'')"
  shows "attempts (new_effects s (sendBroadcastMessage_II w chatID message s)) =
           map (\<lambda>x. (ChatID (snd (fst x)), [S message], snd x)) (deliveries w s)"
    and "reports (new_effects s (sendBroadcastMessage_II w chatID message s)) =
           [(chatID, int (length (filter (\<lambda>x. snd x \<noteq> None) (deliveries w s))),
                     int (length (filter (\<lambda>x. snd x = None) (deliveries w s))))]"
    and "activeChats (sendBroadcastMessage_II w chatID message s) = activeChats s"
  using assms
  by (simp_all add: sendBroadcastMessage_II_def botSend_def emit_def step_def Let_def saveChats_def
       timeNow_def broadcastLoop_II_char recipients_all showMainMenu_trace new_effects_def deliveries_def
       attempts_loop_trace reports_loop_trace is_broadcast_tag_def split: prod.splits)

lemma sendBroadcastMessage_III_effects:
  assumes "distinct (map fst (activeChats s))" and "\<not> Contains (ToLower message) ''cancel''"
  shows "attempts (new_effects s (sendBroadcastMessage_III w chatID message s)) =
           map (\<lambda>x. (ChatID (snd (fst x)), [S message], snd x)) (deliveries w s)"
    and "reports (new_effects s (sendBroadcastMessage_III w chatID message s)) =
           [(chatID, int (length (filter (\<lambda>x. snd x \<noteq> None) (deliveries w s))),
                     int (length (filter (\<lambda>x. snd x = None) (deliveries w s))))]"
    and "activeChats (sendBroadcastMessage_III w chatID message s) = activeChats s"
  using assms
  by (simp_all add: sendBroadcastMessage_III_def botSend_def emit_def step_def Let_def saveChats_def
       timeNow_def broadcastLoop_III_char recipients_all showMainMenu_trace new_effects_def deliveries_def
       attempts_loop_trace reports_loop_trace is_broadcast_tag_def split: prod.splits)

lemma fans_outI:
  assumes "distinct (map fst reg)"
    and "attempts tr = map (\<lambda>x. (ChatID (snd (fst x)), args, snd x)) os"
    and "map fst os = filter (\<lambda>p. fst p \<noteq> admin) reg"
    and "reports tr = [(chatID, int (length (filter (\<lambda>x. snd x \<noteq> None) os)),
                               int (length (filter (\<lambda>x. snd x = None) os)))]"
  shows "fans_out admin reg chatID tr"
proof -
  have len: "length os = length (filter (\<lambda>p. fst p \<noteq> admin) reg)"
    using assms(3) by (metis length_map)
  have K: "length (filter failed (attempts tr)) = length (filter (\<lambda>x. snd x = None) os)"
    by (simp add: assms(2) filter_map o_def failed_def)
  have split: "length (filter (\<lambda>x. snd x \<noteq> None) os) + length (filter (\<lambda>x. snd x = None) os) = length os"
    using sum_length_filter_compl [of "\<lambda>x. snd x \<noteq> None" os] by simp
  have targets: "map fst (attempts tr) = map (ChatID \<circ> snd) (filter (\<lambda>p. fst p \<noteq> admin) reg)"
    using assms(3) by (simp add: assms(2) o_def flip: map_map [of "\<lambda>p. ChatID (snd p)" fst, unfolded o_def])
  have split_int: "int (length (filter (\<lambda>x. snd x \<noteq> None) os)) =
      int (length os) - int (length (filter (\<lambda>x. snd x = None) os))"
    using split by linarith
  have n: "int (length os) = int (length reg) - 1" if "admin \<in> fst ` set reg"
  proof -
    from that have "reg \<noteq> []" by auto
    then have "0 < length reg" by simp
    moreover have "length os = length reg - 1" using len length_others [OF assms(1) that] by simp
    ultimately show ?thesis by linarith
  qed
  have la: "length (attempts tr) = length os" by (simp add: assms(2))
  show ?thesis
    unfolding fans_out_def Let_def K la
    using targets split_int n by (simp add: assms(4))
qed

lemma resetState_frame [simp]:
  "trace (resetState u s) = trace s"
  "activeChats (resetState u s) = activeChats s"
  "config (resetState u s) = config s"
  "tick (resetState u s) = tick s"
  "lastMessageIDs (resetState u s) = lastMessageIDs s"
  "userStates (resetState u s) u = None"
  "tempUserData (resetState u s) u = None"
  by (simp_all add: resetState_def)

lemma new_effects_resetState [simp]: "new_effects s (resetState u s') = new_effects s s'"
  by (simp add: new_effects_def)

lemma cancelOperation_effects:
  "new_effects s (cancelOperation w chatID u s) = menu_effects w chatID (resetState u s)"
  by (simp add: cancelOperation_def showMainMenu_trace new_effects_def)

lemma sendBroadcastMessage_III_cancelled:
  assumes "Contains (ToLower message) ''cancel''"
  shows "attempts (new_effects s (sendBroadcastMessage_III w chatID message s)) = []"
    and "reports (new_effects s (sendBroadcastMessage_III w chatID message s)) = []"
  using assms by (simp_all add: sendBroadcastMessage_III_def cancelOperation_effects)

lemma fans_out_reports: "fans_out admin reg chatID tr \<Longrightarrow> reports tr \<noteq> []"
  by (simp add: fans_out_def Let_def)

text \<open>
  Claim C1. In variants I and II, for every registry (of N sessions) and every text other
  than the variant's cancel word, the broadcast attempts one delivery to each recorded
  session other than the administrator's own, N - 1 attempts when the administrator is among
  the N, and the report to the initiator shows N - 1 - K successes and K failures, K being
  the number of attempts whose send returned an error. Variant III does so exactly for the
  texts that do not contain the word cancel in any case of letters: a payload that contains
  the word is taken for the cancel command, no delivery is attempted and no report is made.
\<close>

theorem broadcast_fanout:
  assumes "distinct (map fst (activeChats s))"
  shows "(message \<noteq> ''/cancel'' \<longrightarrow>
            fans_out (AdminID (config s)) (activeChats s) chatID
              (new_effects s (sendBroadcastMessage w chatID message s))) \<and>
         (\<not> (ToLower message = ''/cancel'' \<or> message = ''cancel'') \<longrightarrow>
            fans_out (AdminID (config s)) (activeChats s) chatID
              (new_effects s (sendBroadcastMessage_II w chatID message s))) \<and>
         (fans_out (AdminID (config s)) (activeChats s) chatID
            (new_effects s (sendBroadcastMessage_III w chatID message s)) \<longleftrightarrow>
          \<not> Contains (ToLower message) ''cancel'') \<and>
         (Contains (ToLower message) ''cancel'' \<longrightarrow>
            attempts (new_effects s (sendBroadcastMessage_III w chatID message s)) = [] \<and>
            reports (new_effects s (sendBroadcastMessage_III w chatID message s)) = [])"
proof -
  have fst_deliveries: "map fst (deliveries w s) = filter (\<lambda>p. fst p \<noteq> AdminID (config s)) (activeChats s)"
    by (simp add: deliveries_def)
  have I: "fans_out (AdminID (config s)) (activeChats s) chatID
            (new_effects s (sendBroadcastMessage w chatID message s))"
    if "message \<noteq> ''/cancel''"
    using assms that sendBroadcastMessage_effects [of s message w chatID]
    by (intro fans_outI [where os = "deliveries w s" and args = "[S message]"] fst_deliveries) simp_all
  have II: "fans_out (AdminID (config s)) (activeChats s) chatID
            (new_effects s (sendBroadcastMessage_II w chatID message s))"
    if "\<not> (ToLower message = ''/cancel'' \<or> message = ''cancel'')"
    using assms that sendBroadcastMessage_II_effects [of s message w chatID]
    by (intro fans_outI [where os = "deliveries w s" and args = "[S message]"] fst_deliveries) simp_all
  have III: "fans_out (AdminID (config s)) (activeChats s) chatID
            (new_effects s (sendBroadcastMessage_III w chatID message s))"
    if "\<not> Contains (ToLower message) ''cancel''"
    using assms that sendBroadcastMessage_III_effects [of s message w chatID]
    by (intro fans_outI [where os = "deliveries w s" and args = "[S message]"] fst_deliveries) simp_all
  have none: "\<not> fans_out (AdminID (config s)) (activeChats s) chatID
            (new_effects s (sendBroadcastMessage_III w chatID message s))"
    if "Contains (ToLower message) ''cancel''"
    using sendBroadcastMessage_III_cancelled(2) [OF that, of s w chatID] fans_out_reports by blast
  show ?thesis
    using I II III none sendBroadcastMessage_III_cancelled [of message s w chatID] by blast
qed

lemma scenario_distinct: "distinct (map fst (activeChats scenario_state))"
  by (simp add: scenario_state_def)

lemma scenario_not_cancel:
  "''hello'' \<noteq> ''/cancel''" "\<not> (ToLower ''hello'' = ''/cancel'' \<or> ''hello'' = ''cancel'')"
  "\<not> Contains (ToLower ''hello'') ''cancel''"
  by code_simp+

lemma scenario_reports:
  "reports (new_effects scenario_state (sendBroadcastMessage scenario_world 1 ''hello'' scenario_state)) = [(1, 1, 1)]"
  "reports (new_effects scenario_state (sendBroadcastMessage_II scenario_world 1 ''hello'' scenario_state)) = [(1, 1, 1)]"
  "reports (new_effects scenario_state (sendBroadcastMessage_III scenario_world 1 ''hello'' scenario_state)) = [(1, 1, 1)]"
  by code_simp+

lemma scenario_sale:
  "''do not cancel the sale'' \<noteq> ''/cancel''"
  "\<not> (ToLower ''do not cancel the sale'' = ''/cancel'' \<or> ''do not cancel the sale'' = ''cancel'')"
  "Contains (ToLower ''do not cancel the sale'') ''cancel''"
  by code_simp+

theorem broadcast_fanout_witness:
  "distinct (map fst (activeChats scenario_state)) \<and>
   ''hello'' \<noteq> ''/cancel'' \<and>
   \<not> (ToLower ''hello'' = ''/cancel'' \<or> ''hello'' = ''cancel'') \<and>
   \<not> Contains (ToLower ''hello'') ''cancel'' \<and>
   fans_out 1 (activeChats scenario_state) 1
     (new_effects scenario_state (sendBroadcastMessage scenario_world 1 ''hello'' scenario_state)) \<and>
   fans_out 1 (activeChats scenario_state) 1
     (new_effects scenario_state (sendBroadcastMessage_II scenario_world 1 ''hello'' scenario_state)) \<and>
   fans_out 1 (activeChats scenario_state) 1
     (new_effects scenario_state (sendBroadcastMessage_III scenario_world 1 ''hello'' scenario_state)) \<and>
   reports (new_effects scenario_state (sendBroadcastMessage scenario_world 1 ''hello'' scenario_state)) = [(1, 1, 1)] \<and>
   ''do not cancel the sale'' \<noteq> ''/cancel'' \<and>
   \<not> (ToLower ''do not cancel the sale'' = ''/cancel'' \<or> ''do not cancel the sale'' = ''cancel'') \<and>
   Contains (ToLower ''do not cancel the sale'') ''cancel'' \<and>
   fans_out 1 (activeChats scenario_state) 1
     (new_effects scenario_state
        (sendBroadcastMessage scenario_world 1 ''do not cancel the sale'' scenario_state)) \<and>
   fans_out 1 (activeChats scenario_state) 1
     (new_effects scenario_state
        (sendBroadcastMessage_II scenario_world 1 ''do not cancel the sale'' scenario_state)) \<and>
   \<not> fans_out 1 (activeChats scenario_state) 1
     (new_effects scenario_state
        (sendBroadcastMessage_III scenario_world 1 ''do not cancel the sale'' scenario_state)) \<and>
   attempts (new_effects scenario_state
        (sendBroadcastMessage_III scenario_world 1 ''do not cancel the sale'' scenario_state)) = [] \<and>
   reports (new_effects scenario_state
        (sendBroadcastMessage_III scenario_world 1 ''do not cancel the sale'' scenario_state)) = []"
proof -
  have admin: "AdminID (config scenario_state) = 1" by (simp add: scenario_state_def)
  note h = broadcast_fanout [OF scenario_distinct, of "''hello''" 1 scenario_world, unfolded admin]
  note c = broadcast_fanout [OF scenario_distinct, of "''do not cancel the sale''" 1 scenario_world,
      unfolded admin]
  show ?thesis
    using h c scenario_distinct scenario_not_cancel scenario_reports(1) scenario_sale
    by blast
qed

subsection \<open>The broadcast step of the state machine\<close>

lemma menus_simps [simp]:
  "menus [] = []"
  "menus (e # tr) = menu_of e @ menus tr"
  "menus (tr @ tr') = menus tr @ menus tr'"
  by (simp_all add: menus_def)

lemma menus_menu [simp]: "menus (menu_effects w chatID s) = [chatID]"
  by (simp add: menu_effects_def split: option.splits)

lemma aborted_cancel:
  "flow_aborted userID chatID s (resetState userID (cancelOperation w chatID u s))"
  by (simp add: flow_aborted_def cancelOperation_effects)

lemma fanned_outI:
  assumes "attempts (new_effects s s') = map (\<lambda>x. (ChatID (snd (fst x)), [S payload], snd x)) (deliveries w s)"
    and "reports (new_effects s s') = [r]"
  shows "fanned_out userID payload s (resetState userID s')"
proof -
  have "filter (\<lambda>p. fst p \<noteq> AdminID (config s)) (activeChats s) = map fst (deliveries w s)"
    by (simp add: deliveries_def)
  then have "map (\<lambda>p. (ChatID (snd p), [S payload])) (filter (\<lambda>p. fst p \<noteq> AdminID (config s)) (activeChats s)) =
      map (\<lambda>x. (ChatID (snd (fst x)), [S payload])) (deliveries w s)"
    by (simp add: o_def)
  then show ?thesis
    by (simp add: fanned_out_def assms o_def)
qed

lemma fanned_not_aborted: "fanned_out userID payload s s' \<Longrightarrow> \<not> flow_aborted userID chatID s s'"
  by (auto simp: fanned_out_def flow_aborted_def)

lemma aborted_not_fanned: "flow_aborted userID chatID s s' \<Longrightarrow> \<not> fanned_out userID payload s s'"
  by (auto simp: fanned_out_def flow_aborted_def)

text \<open>
  Claim C3, as amended. In the broadcast step the text, once its surrounding white space is
  trimmed, either aborts the flow or is broadcast whole, and never both. Variant I aborts
  exactly on the text /cancel, compared byte for byte. Variant II aborts on a text that is
  /cancel in any case of letters, or is the word cancel as written, and broadcasts every
  text that is neither /cancel nor cancel in any case of letters. Variant III aborts on a
  text that is cancel in any case of letters, and broadcasts every text that does not
  contain that word in any case of letters.
\<close>

theorem broadcast_text_step:
  assumes "distinct (map fst (activeChats s))"
  shows "(case handleState w msg ''broadcast_message'' s of
            Inl e \<Rightarrow> False
          | Inr s' \<Rightarrow>
              (flow_aborted (From_ID msg) (Chat_ID msg) s s' \<longleftrightarrow>
                 \<not> fanned_out (From_ID msg) (TrimSpace (Text msg)) s s') \<and>
              (flow_aborted (From_ID msg) (Chat_ID msg) s s' \<longleftrightarrow> TrimSpace (Text msg) = ''/cancel'') \<and>
              (TrimSpace (Text msg) \<noteq> ''/cancel'' \<longrightarrow> fanned_out (From_ID msg) (TrimSpace (Text msg)) s s')) \<and>
         (case handleState_II w msg ''broadcast_message'' s of
            Inl e \<Rightarrow> False
          | Inr s' \<Rightarrow>
              (flow_aborted (From_ID msg) (Chat_ID msg) s s' \<longleftrightarrow>
                 \<not> fanned_out (From_ID msg) (TrimSpace (Text msg)) s s') \<and>
              (ToLower (TrimSpace (Text msg)) = ''/cancel'' \<or> TrimSpace (Text msg) = ''cancel'' \<longrightarrow>
                 flow_aborted (From_ID msg) (Chat_ID msg) s s') \<and>
              (ToLower (TrimSpace (Text msg)) \<noteq> ''/cancel'' \<and> ToLower (TrimSpace (Text msg)) \<noteq> ''cancel'' \<longrightarrow>
                 fanned_out (From_ID msg) (TrimSpace (Text msg)) s s')) \<and>
         (case handleState_III w msg ''broadcast_message'' s of
            Inl e \<Rightarrow> False
          | Inr s' \<Rightarrow>
              (flow_aborted (From_ID msg) (Chat_ID msg) s s' \<longleftrightarrow>
                 \<not> fanned_out (From_ID msg) (TrimSpace (Text msg)) s s') \<and>
              (ToLower (TrimSpace (Text msg)) = ''cancel'' \<longrightarrow> flow_aborted (From_ID msg) (Chat_ID msg) s s') \<and>
              (\<not> Contains (ToLower (TrimSpace (Text msg))) ''cancel'' \<longrightarrow>
                 fanned_out (From_ID msg) (TrimSpace (Text msg)) s s'))"
proof -
  define tx where "tx = TrimSpace (Text msg)"
  define u where "u = From_ID msg"
  define c where "c = Chat_ID msg"
  define sI where "sI = resetState u (sendBroadcastMessage w c tx s)"
  define sII where "sII = resetState u (sendBroadcastMessage_II w c tx s)"
  define sIII where "sIII = resetState u (sendBroadcastMessage_III w c tx s)"
  have hs: "handleState w msg ''broadcast_message'' s = Inr sI"
    "handleState_II w msg ''broadcast_message'' s = Inr sII"
    "handleState_III w msg ''broadcast_message'' s = Inr sIII"
    by (simp_all add: handleState_def handleState_II_def handleState_III_def handleStateWith_def
        Let_def tx_def u_def c_def sI_def sII_def sIII_def)
  have vI: "fanned_out u tx s sI" if "tx \<noteq> ''/cancel''"
    unfolding sI_def
    using sendBroadcastMessage_effects(1,2) [OF assms that, of w c] by (rule fanned_outI)
  have vII: "fanned_out u tx s sII" if "\<not> (ToLower tx = ''/cancel'' \<or> tx = ''cancel'')"
    unfolding sII_def
    using sendBroadcastMessage_II_effects(1,2) [OF assms that, of w c] by (rule fanned_outI)
  have vIII: "fanned_out u tx s sIII" if "\<not> Contains (ToLower tx) ''cancel''"
    unfolding sIII_def
    using sendBroadcastMessage_III_effects(1,2) [OF assms that, of w c] by (rule fanned_outI)
  have cI: "flow_aborted u c s sI" if "tx = ''/cancel''"
    unfolding sI_def using that by (simp add: sendBroadcastMessage_def aborted_cancel)
  have cII: "flow_aborted u c s sII" if "ToLower tx = ''/cancel'' \<or> tx = ''cancel''"
    unfolding sII_def using that by (auto simp add: sendBroadcastMessage_II_def aborted_cancel)
  have cIII': "flow_aborted u c s sIII" if "Contains (ToLower tx) ''cancel''"
    unfolding sIII_def using that by (simp add: sendBroadcastMessage_III_def aborted_cancel)
  have lower_cancel: "Contains ''cancel'' ''cancel''" "ToLower ''cancel'' = ''cancel''" by code_simp+
  have cIII: "flow_aborted u c s sIII" if "ToLower tx = ''cancel''"
    using that lower_cancel(1) cIII' by simp
  have wordII: "\<not> (ToLower tx = ''/cancel'' \<or> tx = ''cancel'')"
    if "ToLower tx \<noteq> ''/cancel'' \<and> ToLower tx \<noteq> ''cancel''"
    using that lower_cancel(2) by auto
  note ex = fanned_not_aborted [of u tx s _ c] aborted_not_fanned [of u c s _ tx]
  have dI: "flow_aborted u c s sI \<longleftrightarrow> \<not> fanned_out u tx s sI"
    using vI cI ex by blast
  have dII: "flow_aborted u c s sII \<longleftrightarrow> \<not> fanned_out u tx s sII"
    using vII cII ex by blast
  have dIII: "flow_aborted u c s sIII \<longleftrightarrow> \<not> fanned_out u tx s sIII"
    using vIII cIII' ex by blast
  have eI: "flow_aborted u c s sI \<longleftrightarrow> tx = ''/cancel''"
    using vI cI ex by blast
  have rI: "(flow_aborted u c s sI \<longleftrightarrow> \<not> fanned_out u tx s sI) \<and>
            (flow_aborted u c s sI \<longleftrightarrow> tx = ''/cancel'') \<and>
            (tx \<noteq> ''/cancel'' \<longrightarrow> fanned_out u tx s sI)"
    using dI eI vI by blast
  have rII: "(flow_aborted u c s sII \<longleftrightarrow> \<not> fanned_out u tx s sII) \<and>
             (ToLower tx = ''/cancel'' \<or> tx = ''cancel'' \<longrightarrow> flow_aborted u c s sII) \<and>
             (ToLower tx \<noteq> ''/cancel'' \<and> ToLower tx \<noteq> ''cancel'' \<longrightarrow> fanned_out u tx s sII)"
    using dII cII vII wordII by blast
  have rIII: "(flow_aborted u c s sIII \<longleftrightarrow> \<not> fanned_out u tx s sIII) \<and>
              (ToLower tx = ''cancel'' \<longrightarrow> flow_aborted u c s sIII) \<and>
              (\<not> Contains (ToLower tx) ''cancel'' \<longrightarrow> fanned_out u tx s sIII)"
    using dIII cIII vIII by blast
  show ?thesis
    unfolding tx_def [symmetric] u_def [symmetric] c_def [symmetric] hs sum.case
    using rI rII rIII by (intro conjI) blast+
qed

lemma scenario_hello: "TrimSpace (Text (scenario_msg ''hello'')) = ''hello''"
  by code_simp

lemma scenario_hello_not_cancel:
  "TrimSpace (Text (scenario_msg ''hello'')) \<noteq> ''/cancel''"
  "\<not> (ToLower (TrimSpace (Text (scenario_msg ''hello''))) = ''/cancel'' \<or>
      TrimSpace (Text (scenario_msg ''hello'')) = ''cancel'')"
  "\<not> Contains (ToLower (TrimSpace (Text (scenario_msg ''hello'')))) ''cancel''"
  by code_simp+

lemma scenario_hello_words:
  "ToLower (TrimSpace (Text (scenario_msg ''hello''))) \<noteq> ''/cancel'' \<and>
   ToLower (TrimSpace (Text (scenario_msg ''hello''))) \<noteq> ''cancel''"
  by code_simp

lemma scenario_cancel_words:
  "TrimSpace (Text (scenario_msg ''/cancel'')) = ''/cancel''"
  "ToLower (TrimSpace (Text (scenario_msg ''/cancel''))) = ''/cancel''"
  "TrimSpace (Text (scenario_msg ''cancel'')) = ''cancel''"
  "ToLower (TrimSpace (Text (scenario_msg ''cancel''))) = ''cancel''"
  "ToLower ''/cancel'' = ''/cancel''"
  "ToLower ''cancel'' = ''cancel''"
  by code_simp+

theorem broadcast_text_step_witness:
  "distinct (map fst (activeChats scenario_state)) \<and>
   TrimSpace (Text (scenario_msg ''hello'')) \<noteq> ''/cancel'' \<and>
   (ToLower (TrimSpace (Text (scenario_msg ''hello''))) \<noteq> ''/cancel'' \<and>
    ToLower (TrimSpace (Text (scenario_msg ''hello''))) \<noteq> ''cancel'') \<and>
   \<not> Contains (ToLower (TrimSpace (Text (scenario_msg ''hello'')))) ''cancel'' \<and>
   (case handleState scenario_world (scenario_msg ''hello'') ''broadcast_message'' scenario_state of
      Inl e \<Rightarrow> False
    | Inr s' \<Rightarrow> fanned_out 1 ''hello'' scenario_state s' \<and> \<not> flow_aborted 1 1 scenario_state s') \<and>
   (case handleState_II scenario_world (scenario_msg ''hello'') ''broadcast_message'' scenario_state of
      Inl e \<Rightarrow> False
    | Inr s' \<Rightarrow> fanned_out 1 ''hello'' scenario_state s' \<and> \<not> flow_aborted 1 1 scenario_state s') \<and>
   (case handleState_III scenario_world (scenario_msg ''hello'') ''broadcast_message'' scenario_state of
      Inl e \<Rightarrow> False
    | Inr s' \<Rightarrow> fanned_out 1 ''hello'' scenario_state s' \<and> \<not> flow_aborted 1 1 scenario_state s') \<and>
   TrimSpace (Text (scenario_msg ''/cancel'')) = ''/cancel'' \<and>
   ToLower (TrimSpace (Text (scenario_msg ''/cancel''))) = ''/cancel'' \<and>
   (case handleState scenario_world (scenario_msg ''/cancel'') ''broadcast_message'' scenario_state of
      Inl e \<Rightarrow> False
    | Inr s' \<Rightarrow> flow_aborted 1 1 scenario_state s' \<and> \<not> fanned_out 1 ''/cancel'' scenario_state s') \<and>
   (case handleState_II scenario_world (scenario_msg ''/cancel'') ''broadcast_message'' scenario_state of
      Inl e \<Rightarrow> False
    | Inr s' \<Rightarrow> flow_aborted 1 1 scenario_state s' \<and> \<not> fanned_out 1 ''/cancel'' scenario_state s') \<and>
   ToLower (TrimSpace (Text (scenario_msg ''cancel''))) = ''cancel'' \<and>
   (case handleState_II scenario_world (scenario_msg ''cancel'') ''broadcast_message'' scenario_state of
      Inl e \<Rightarrow> False
    | Inr s' \<Rightarrow> flow_aborted 1 1 scenario_state s' \<and> \<not> fanned_out 1 ''cancel'' scenario_state s') \<and>
   (case handleState_III scenario_world (scenario_msg ''cancel'') ''broadcast_message'' scenario_state of
      Inl e \<Rightarrow> False
    | Inr s' \<Rightarrow> flow_aborted 1 1 scenario_state s' \<and> \<not> fanned_out 1 ''cancel'' scenario_state s')"
proof -
  have ids: "From_ID (scenario_msg t) = 1" "Chat_ID (scenario_msg t) = 1" for t
    by (simp_all add: scenario_msg_def)
  note h = broadcast_text_step [OF scenario_distinct, where w = scenario_world and msg = "scenario_msg ''hello''"]
  note a = broadcast_text_step [OF scenario_distinct, where w = scenario_world and msg = "scenario_msg ''/cancel''"]
  note b = broadcast_text_step [OF scenario_distinct, where w = scenario_world and msg = "scenario_msg ''cancel''"]
  have ph: "TrimSpace (Text (scenario_msg ''hello'')) \<noteq> ''/cancel'' \<and>
     (ToLower (TrimSpace (Text (scenario_msg ''hello''))) \<noteq> ''/cancel'' \<and>
      ToLower (TrimSpace (Text (scenario_msg ''hello''))) \<noteq> ''cancel'') \<and>
     \<not> Contains (ToLower (TrimSpace (Text (scenario_msg ''hello'')))) ''cancel'' \<and>
     (case handleState scenario_world (scenario_msg ''hello'') ''broadcast_message'' scenario_state of
        Inl e \<Rightarrow> False
      | Inr s' \<Rightarrow> fanned_out 1 ''hello'' scenario_state s' \<and> \<not> flow_aborted 1 1 scenario_state s') \<and>
     (case handleState_II scenario_world (scenario_msg ''hello'') ''broadcast_message'' scenario_state of
        Inl e \<Rightarrow> False
      | Inr s' \<Rightarrow> fanned_out 1 ''hello'' scenario_state s' \<and> \<not> flow_aborted 1 1 scenario_state s') \<and>
     (case handleState_III scenario_world (scenario_msg ''hello'') ''broadcast_message'' scenario_state of
        Inl e \<Rightarrow> False
      | Inr s' \<Rightarrow> fanned_out 1 ''hello'' scenario_state s' \<and> \<not> flow_aborted 1 1 scenario_state s')"
    using h scenario_hello_not_cancel scenario_hello_words
    by (simp add: ids scenario_hello split: sum.splits)
  have pa: "TrimSpace (Text (scenario_msg ''/cancel'')) = ''/cancel'' \<and>
     ToLower (TrimSpace (Text (scenario_msg ''/cancel''))) = ''/cancel'' \<and>
     (case handleState scenario_world (scenario_msg ''/cancel'') ''broadcast_message'' scenario_state of
        Inl e \<Rightarrow> False
      | Inr s' \<Rightarrow> flow_aborted 1 1 scenario_state s' \<and> \<not> fanned_out 1 ''/cancel'' scenario_state s') \<and>
     (case handleState_II scenario_world (scenario_msg ''/cancel'') ''broadcast_message'' scenario_state of
        Inl e \<Rightarrow> False
      | Inr s' \<Rightarrow> flow_aborted 1 1 scenario_state s' \<and> \<not> fanned_out 1 ''/cancel'' scenario_state s')"
    using a by (auto simp add: ids scenario_cancel_words(1,2,5) simp del: Contains.simps split: sum.splits)
  have pb: "ToLower (TrimSpace (Text (scenario_msg ''cancel''))) = ''cancel'' \<and>
     (case handleState_II scenario_world (scenario_msg ''cancel'') ''broadcast_message'' scenario_state of
        Inl e \<Rightarrow> False
      | Inr s' \<Rightarrow> flow_aborted 1 1 scenario_state s' \<and> \<not> fanned_out 1 ''cancel'' scenario_state s') \<and>
     (case handleState_III scenario_world (scenario_msg ''cancel'') ''broadcast_message'' scenario_state of
        Inl e \<Rightarrow> False
      | Inr s' \<Rightarrow> flow_aborted 1 1 scenario_state s' \<and> \<not> fanned_out 1 ''cancel'' scenario_state s')"
    using b by (auto simp add: ids scenario_cancel_words(3,4,6) simp del: Contains.simps split: sum.splits)
  show ?thesis
    using scenario_distinct ph pa pb by blast
qed

theorem broadcast_cancel_counterexample:
  "ToLower ''/CANCEL'' = ''/cancel'' \<and>
   (case handleState scenario_world (scenario_msg ''/CANCEL'') ''broadcast_message'' scenario_state of
      Inl e \<Rightarrow> False
    | Inr s' \<Rightarrow>
        map (\<lambda>a. (fst a, fst (snd a))) (attempts (new_effects scenario_state s')) =
          [(2, [S ''/CANCEL'']), (3, [S ''/CANCEL''])]) \<and>
   ToLower ''Cancel'' = ''cancel'' \<and>
   (case handleState_II scenario_world (scenario_msg ''Cancel'') ''broadcast_message'' scenario_state of
      Inl e \<Rightarrow> False
    | Inr s' \<Rightarrow>
        map (\<lambda>a. (fst a, fst (snd a))) (attempts (new_effects scenario_state s')) =
          [(2, [S ''Cancel'']), (3, [S ''Cancel''])]) \<and>
   ToLower ''do not cancel the sale'' \<noteq> ''cancel'' \<and>
   ToLower ''do not cancel the sale'' \<noteq> ''/cancel'' \<and>
   (case handleState_III scenario_world (scenario_msg ''do not cancel the sale'') ''broadcast_message''
           scenario_state of
      Inl e \<Rightarrow> False
    | Inr s' \<Rightarrow> flow_aborted 1 1 scenario_state s')"
  by code_simp






subsection \<open>Restore\<close>

lemma writes_simps [simp]:
  "writes [] = []"
  "writes (e # tr) = write_of e @ writes tr"
  "writes (tr @ tr') = writes tr @ writes tr'"
  by (simp_all add: writes_def)

lemma Join_valid: "name \<in> set validFiles \<Longrightarrow> Join ''/etc/zivpn'' name = ''/etc/zivpn/'' @ name"
proof -
  have "Join ''/etc/zivpn'' ''config.json'' = ''/etc/zivpn/'' @ ''config.json''"
    "Join ''/etc/zivpn'' ''users.json'' = ''/etc/zivpn/'' @ ''users.json''"
    "Join ''/etc/zivpn'' ''bot-config.json'' = ''/etc/zivpn/'' @ ''bot-config.json''"
    "Join ''/etc/zivpn'' ''domain'' = ''/etc/zivpn/'' @ ''domain''"
    "Join ''/etc/zivpn'' ''apikey'' = ''/etc/zivpn/'' @ ''apikey''"
    "Join ''/etc/zivpn'' ''api_port'' = ''/etc/zivpn/'' @ ''api_port''"
    by code_simp+
  then show "name \<in> set validFiles \<Longrightarrow> ?thesis"
    unfolding validFiles_def by (elim set_ConsD [elim_format]) auto
qed

lemma valid_in_config_dir: "name \<in> set validFiles \<Longrightarrow> in_config_dir (''/etc/zivpn/'' @ name)"
  unfolding validFiles_def in_config_dir_def HasPrefix_def by auto

lemma restoreEntries_filter:
  "restoreEntries w files s = restoreEntries w (filter (\<lambda>f. Name f \<in> set validFiles) files) s"
  by (induction files arbitrary: s) (simp_all split: option.splits prod.splits bool.splits)

text \<open>What the loop adds to the trace: writes of listed entries, under their names.\<close>

lemma restoreEntries_trace:
  "\<exists>X. trace (restoreEntries w files s) = trace s @ X \<and>
       (\<forall>e \<in> set X. \<exists>f \<in> set files. \<exists>bytes. Name f \<in> set validFiles \<and> Content f = Some bytes \<and>
           e = WriteFile (''/etc/zivpn/'' @ Name f) bytes)"
proof (induction files arbitrary: s)
  case Nil
  then show ?case by simp
next
  case (Cons f fs)
  show ?case
  proof (cases "Name f \<in> set validFiles \<and> Content f \<noteq> None \<and> io_ok w (tick s)")
    case False
    then have "restoreEntries w (f # fs) s = restoreEntries w fs s \<or>
               restoreEntries w (f # fs) s = restoreEntries w fs (step s)"
      by (auto simp: ioResult_def split: option.splits)
    moreover have "trace (step s) = trace s" by (simp add: step_def)
    ultimately show ?thesis using Cons.IH [of s] Cons.IH [of "step s"] by auto
  next
    case True
    then obtain bytes where b: "Content f = Some bytes" by auto
    let ?e = "WriteFile (''/etc/zivpn/'' @ Name f) bytes"
    from True b have r: "restoreEntries w (f # fs) s = restoreEntries w fs (emit ?e (step s))"
      by (simp add: ioResult_def Join_valid)
    from Cons.IH [of "emit ?e (step s)"] obtain X where
      X: "trace (restoreEntries w fs (emit ?e (step s))) = trace (emit ?e (step s)) @ X"
      "\<forall>e \<in> set X. \<exists>f \<in> set fs. \<exists>bytes. Name f \<in> set validFiles \<and> Content f = Some bytes \<and>
           e = WriteFile (''/etc/zivpn/'' @ Name f) bytes"
      by blast
    have "trace (restoreEntries w (f # fs) s) = trace s @ (?e # X)"
      unfolding r using X(1) by (simp add: emit_def step_def)
    moreover have "\<forall>e \<in> set (?e # X). \<exists>g \<in> set (f # fs). \<exists>bytes. Name g \<in> set validFiles \<and>
        Content g = Some bytes \<and> e = WriteFile (''/etc/zivpn/'' @ Name g) bytes"
      using X(2) True b by auto
    ultimately show ?thesis by blast
  qed
qed

lemma sendAndTrack_trace:
  "trace (sendAndTrack w chatID t kb s) = trace s @ track_effects w chatID t kb s"
  by (simp add: sendAndTrack_def track_effects_def botSend_def deleteLastMessage_def emit_def step_def
      Let_def split: option.splits)

lemma sendMessage_trace:
  "trace (sendMessage w chatID t s) =
     trace s @ track_effects w chatID t (if userStates s chatID \<noteq> None then [[''cancel'']] else []) s"
  by (simp add: sendMessage_def sendAndTrack_trace)

lemma replyError_trace:
  "trace (replyError w chatID (Wording t args) s) =
     trace s @ track_effects w chatID (Wording (''X '' @ t) args)
                 (if userStates s chatID \<noteq> None then [[''cancel'']] else []) s"
  by (simp add: replyError_def sendMessage_trace)

lemma writes_track [simp]: "writes (track_effects w chatID t kb s) = []"
  by (simp add: track_effects_def split: option.splits)

lemma writes_menu [simp]: "writes (menu_effects w chatID s) = []"
  by (simp add: menu_effects_def split: option.splits)

lemma processRestoreFile_writes:
  "\<exists>X. writes (new_effects s (processRestoreFile w msg s)) = writes X \<and>
       (\<forall>e \<in> set X. \<exists>name \<in> set validFiles. \<exists>bytes. e = WriteFile (''/etc/zivpn/'' @ name) bytes)"
proof -
  define s1 where "s1 = sendMessage w (Chat_ID msg) (Wording ''Sedang memproses file...'' []) (resetState (From_ID msg) s)"
  obtain E1 where E1: "trace s1 = trace s @ E1" "writes E1 = []"
    by (simp add: s1_def sendMessage_trace)
  have tr_step: "trace (step s1) = trace s @ E1"
    by (simp add: step_def E1)
  show ?thesis
  proof (cases "download_result w (tick s1)")
    case (Archive files)
    obtain X where X: "trace (restoreEntries w files (step s1)) = trace (step s1) @ X"
      "\<forall>e \<in> set X. \<exists>f \<in> set files. \<exists>bytes. Name f \<in> set validFiles \<and> Content f = Some bytes \<and>
           e = WriteFile (''/etc/zivpn/'' @ Name f) bytes"
      using restoreEntries_trace [of w files "step s1"] by blast
    have "writes (new_effects s (processRestoreFile w msg s)) = writes X"
      using Archive X(1) E1(2)
      by (simp add: processRestoreFile_def Let_def s1_def [symmetric] fetchArchive_def botSend_def
          emit_def step_def showMainMenu_trace new_effects_def tr_step [unfolded step_def])
    moreover have "\<forall>e \<in> set X. \<exists>name \<in> set validFiles. \<exists>bytes. e = WriteFile (''/etc/zivpn/'' @ name) bytes"
      using X(2) by blast
    ultimately show ?thesis by blast
  qed (simp_all add: processRestoreFile_def Let_def s1_def [symmetric] fetchArchive_def
        replyError_trace new_effects_def tr_step E1 exI [of _ "[]"])
qed

lemma set_writes: "set (writes X) = {(path, bytes). WriteFile path bytes \<in> set X}"
proof (induction X)
  case Nil
  then show ?case by simp
next
  case (Cons e X)
  then show ?case by (cases e) auto
qed

text \<open>
  Claim C2. The restore loop treats an archive as if the entries whose name is not in the
  list were not there; all it does is write listed entries, each under its own name in
  /etc/zivpn; and every file the whole restore operation writes lies directly inside
  /etc/zivpn, under a name of the list.
\<close>

theorem restore_allow_list:
  "restoreEntries w files s = restoreEntries w (filter (\<lambda>f. Name f \<in> set validFiles) files) s \<and>
   (\<forall>e \<in> set (new_effects s (restoreEntries w files s)).
      \<exists>f \<in> set files. \<exists>bytes. Name f \<in> set validFiles \<and> Content f = Some bytes \<and>
        e = WriteFile (''/etc/zivpn/'' @ Name f) bytes) \<and>
   (\<forall>pc \<in> set (writes (new_effects s (processRestoreFile w msg s))).
      in_config_dir (fst pc) \<and> drop 11 (fst pc) \<in> set validFiles)"
proof (intro conjI)
  show "restoreEntries w files s = restoreEntries w (filter (\<lambda>f. Name f \<in> set validFiles) files) s"
    by (rule restoreEntries_filter)
next
  obtain X where X: "trace (restoreEntries w files s) = trace s @ X"
    "\<forall>e \<in> set X. \<exists>f \<in> set files. \<exists>bytes. Name f \<in> set validFiles \<and> Content f = Some bytes \<and>
        e = WriteFile (''/etc/zivpn/'' @ Name f) bytes"
    using restoreEntries_trace [of w files s] by blast
  from X(1) have "new_effects s (restoreEntries w files s) = X" by (simp add: new_effects_def)
  with X(2) show "\<forall>e \<in> set (new_effects s (restoreEntries w files s)).
      \<exists>f \<in> set files. \<exists>bytes. Name f \<in> set validFiles \<and> Content f = Some bytes \<and>
        e = WriteFile (''/etc/zivpn/'' @ Name f) bytes"
    by simp
next
  obtain X where X: "writes (new_effects s (processRestoreFile w msg s)) = writes X"
    "\<forall>e \<in> set X. \<exists>name \<in> set validFiles. \<exists>bytes. e = WriteFile (''/etc/zivpn/'' @ name) bytes"
    using processRestoreFile_writes [of s w msg] by blast
  show "\<forall>pc \<in> set (writes (new_effects s (processRestoreFile w msg s))).
      in_config_dir (fst pc) \<and> drop 11 (fst pc) \<in> set validFiles"
  proof
    fix pc assume "pc \<in> set (writes (new_effects s (processRestoreFile w msg s)))"
    then have "WriteFile (fst pc) (snd pc) \<in> set X" by (simp add: X(1) set_writes split_beta)
    with X(2) obtain name where n: "name \<in> set validFiles" "fst pc = ''/etc/zivpn/'' @ name" by auto
    then show "in_config_dir (fst pc) \<and> drop 11 (fst pc) \<in> set validFiles"
      using valid_in_config_dir [OF n(1)] by simp
  qed
qed

lemma restore_scenario:
  "writes (new_effects scenario_state (processRestoreFile restore_world restore_msg scenario_state)) =
     [(''/etc/zivpn/config.json'', ''A''), (''/etc/zivpn/apikey'', ''K'')]"
  by (simp add: processRestoreFile_def restore_world_def restore_msg_def scenario_world_def scenario_state_def
      sendMessage_def sendAndTrack_def deleteLastMessage_def botSend_def emit_def step_def resetState_def
      fetchArchive_def ioResult_def validFiles_def Join_valid new_effects_def showMainMenu_def getIpInfo_def
      getMainMenuKeyboard_def Let_def)

lemma restore_loop_scenario:
  "new_effects scenario_state
     (restoreEntries restore_world
        [\<lparr>Name = ''evil.sh'', Content = Some ''C''\<rparr>, \<lparr>Name = ''apikey'', Content = Some ''K''\<rparr>]
        scenario_state) =
     [WriteFile ''/etc/zivpn/apikey'' ''K'']"
  by (simp add: restore_world_def scenario_world_def scenario_state_def emit_def step_def
      ioResult_def validFiles_def Join_valid new_effects_def)

theorem restore_allow_list_witness:
  "new_effects scenario_state
     (restoreEntries restore_world
        [\<lparr>Name = ''evil.sh'', Content = Some ''C''\<rparr>, \<lparr>Name = ''apikey'', Content = Some ''K''\<rparr>]
        scenario_state) =
     [WriteFile ''/etc/zivpn/apikey'' ''K''] \<and>
   writes (new_effects scenario_state (processRestoreFile restore_world restore_msg scenario_state)) =
     [(''/etc/zivpn/config.json'', ''A''), (''/etc/zivpn/apikey'', ''K'')] \<and>
   in_config_dir ''/etc/zivpn/config.json'' \<and> ''config.json'' \<in> set validFiles \<and>
   in_config_dir ''/etc/zivpn/apikey'' \<and> ''apikey'' \<in> set validFiles"
  using restore_allow_list [where w = restore_world and msg = restore_msg and s = scenario_state and
      files = "[\<lparr>Name = ''evil.sh'', Content = Some ''C''\<rparr>, \<lparr>Name = ''apikey'', Content = Some ''K''\<rparr>]"]
    restore_scenario restore_loop_scenario
  by simp

subsection \<open>The name step of the create flow\<close>

lemma sent_simps [simp]:
  "sent [] = []"
  "sent (e # tr) = sent_of e @ sent tr"
  "sent (tr @ tr') = sent tr @ sent tr'"
  by (simp_all add: sent_def)

lemma sent_track [simp]: "sent (track_effects w chatID (Wording t args) kb s) = [(chatID, t)]"
  by (simp add: track_effects_def split: option.splits)

lemma sendAndTrack_frame [simp]:
  "userStates (sendAndTrack w chatID t kb s) = userStates s"
  "tempUserData (sendAndTrack w chatID t kb s) = tempUserData s"
  "activeChats (sendAndTrack w chatID t kb s) = activeChats s"
  "config (sendAndTrack w chatID t kb s) = config s"
  by (simp_all add: sendAndTrack_def botSend_def deleteLastMessage_def emit_def step_def Let_def
      split: option.splits)

lemma sendMessage_frame [simp]:
  "userStates (sendMessage w chatID t s) = userStates s"
  "tempUserData (sendMessage w chatID t s) = tempUserData s"
  "activeChats (sendMessage w chatID t s) = activeChats s"
  "config (sendMessage w chatID t s) = config s"
  by (simp_all add: sendMessage_def)

lemma sendMessage_new [simp]:
  "new_effects s (sendMessage w chatID t s) =
     track_effects w chatID t (if userStates s chatID \<noteq> None then [[''cancel'']] else []) s"
  by (simp add: new_effects_def sendMessage_trace)

text \<open>
  Claim C6, as amended. In the name step of the create flow, a text whose form without the
  surrounding white space is shorter than 3 or longer than 20 bytes, or holds a character
  outside [A-Za-z0-9_-], is answered by one error prompt in the same chat; the conversation
  states and the scratch data stay as they are, so the flow does not reach the duration
  step. This holds in every variant.
\<close>

theorem name_step_rejects:
  assumes "length (TrimSpace (Text msg)) < 3 \<or> length (TrimSpace (Text msg)) > 20 \<or>
           (\<exists>c \<in> set (TrimSpace (Text msg)). \<not> name_char c)"
  shows "handleState_II w msg ''create_username'' s = handleState w msg ''create_username'' s \<and>
         handleState_III w msg ''create_username'' s = handleState w msg ''create_username'' s \<and>
         (case handleState w msg ''create_username'' s of
            Inl e \<Rightarrow> False
          | Inr s' \<Rightarrow>
              userStates s' = userStates s \<and> tempUserData s' = tempUserData s \<and>
              sent (new_effects s s') =
                [(Chat_ID msg,
                  if length (TrimSpace (Text msg)) < 3 \<or> length (TrimSpace (Text msg)) > 20
                  then ''Password harus 3-20 karakter. Coba lagi:''
                  else ''Password hanya boleh huruf, angka, - dan _. Coba lagi:'')])"
proof -
  define tx where "tx = TrimSpace (Text msg)"
  have bad: "length tx < 3 \<or> length tx > 20 \<or> \<not> matches_name tx"
    using assms by (auto simp: tx_def matches_name_def list_all_iff)
  have same: "handleStateWith b p w msg ''create_username'' s =
      Inr (snd (validateUsername w (Chat_ID msg) tx s))" for b p
    using bad by (auto simp: handleStateWith_def Let_def tx_def validateUsername_def)
  show ?thesis
    unfolding handleState_def handleState_II_def handleState_III_def same tx_def [symmetric]
    using bad by (auto simp: validateUsername_def)
qed

lemma trim_examples:
  "TrimSpace ''ab'' = ''ab''" "TrimSpace ''bad name!'' = ''bad name!''" "TrimSpace '' abc '' = ''abc''"
  by code_simp+

lemma name_char_examples:
  "\<not> name_char CHR '' ''" "list_all name_char ''abc''"
  by code_simp+

theorem name_step_rejects_witness:
  "length (TrimSpace (Text (scenario_msg ''ab''))) < 3 \<and>
   (\<exists>c \<in> set (TrimSpace (Text (scenario_msg ''bad name!''))). \<not> name_char c) \<and>
   (case handleState scenario_world (scenario_msg ''ab'') ''create_username'' create_state of
      Inl e \<Rightarrow> False
    | Inr s' \<Rightarrow>
        userStates s' 1 = Some ''create_username'' \<and>
        sent (new_effects create_state s') = [(1, ''Password harus 3-20 karakter. Coba lagi:'')]) \<and>
   (case handleState scenario_world (scenario_msg ''bad name!'') ''create_username'' create_state of
      Inl e \<Rightarrow> False
    | Inr s' \<Rightarrow>
        userStates s' 1 = Some ''create_username'' \<and>
        sent (new_effects create_state s') =
          [(1, ''Password hanya boleh huruf, angka, - dan _. Coba lagi:'')])"
proof -
  have tx: "Text (scenario_msg t) = t" "Chat_ID (scenario_msg t) = 1" for t
    by (simp_all add: scenario_msg_def)
  have st: "userStates create_state 1 = Some ''create_username''"
    by (simp add: create_state_def)
  have short: "length (TrimSpace (Text (scenario_msg ''ab''))) < 3"
    by (simp add: tx trim_examples)
  have odd: "\<exists>c \<in> set (TrimSpace (Text (scenario_msg ''bad name!''))). \<not> name_char c"
    using name_char_examples(1) by (simp add: tx trim_examples)
  have len: "\<not> (length (TrimSpace (Text (scenario_msg ''bad name!''))) < 3 \<or>
      length (TrimSpace (Text (scenario_msg ''bad name!''))) > 20)"
    by (simp add: tx trim_examples)
  show ?thesis
    using name_step_rejects [where msg = "scenario_msg ''ab''" and w = scenario_world and s = create_state]
      name_step_rejects [where msg = "scenario_msg ''bad name!''" and w = scenario_world and s = create_state]
      short odd len st
    by (auto simp: tx split: sum.splits)
qed

theorem name_step_counterexample:
  "(\<exists>c \<in> set (Text (scenario_msg '' abc '')). \<not> name_char c) \<and>
   (case handleState scenario_world (scenario_msg '' abc '') ''create_username'' create_state of
      Inl e \<Rightarrow> False
    | Inr s' \<Rightarrow>
        userStates s' 1 = Some ''create_days'' \<and> scratch s' 1 ''username'' = ''abc'' \<and>
        sent (new_effects create_state s') = [(1, ''Masukkan Durasi (hari):'')])"
proof -
  have "\<exists>c \<in> set (Text (scenario_msg '' abc '')). \<not> name_char c"
    using name_char_examples(1) by (simp add: scenario_msg_def)
  moreover have "matches_name ''abc''"
    using name_char_examples(2) by (simp add: matches_name_def)
  then have "case handleState scenario_world (scenario_msg '' abc '') ''create_username'' create_state of
      Inl e \<Rightarrow> False
    | Inr s' \<Rightarrow>
        userStates s' 1 = Some ''create_days'' \<and> scratch s' 1 ''username'' = ''abc'' \<and>
        sent (new_effects create_state s') = [(1, ''Masukkan Durasi (hari):'')]"
    by (simp add: handleState_def handleStateWith_def Let_def scenario_msg_def trim_examples
        validateUsername_def create_state_def scratch_def new_effects_def sendMessage_trace)
  ultimately show ?thesis by blast
qed

subsection \<open>Paging\<close>

lemma quo_nonneg: "0 \<le> a \<Longrightarrow> 0 < b \<Longrightarrow> quo a b = a div b"
  by (cases "a = 0") (simp_all add: quo_def sgn_if)

text \<open>The page arithmetic on a list of n >= 1 accounts, for any page number.\<close>

lemma pageWindow_bounds:
  assumes "1 \<le> n" and "0 < perPage"
  shows "case pageWindow perPage n page of
           (totalPages, page2, startIdx, endIdx) \<Rightarrow>
             1 \<le> page2 \<and> page2 \<le> totalPages \<and> 0 \<le> startIdx \<and> startIdx \<le> endIdx \<and> endIdx \<le> n \<and>
             totalPages * perPage < n + perPage"
proof -
  define a where "a = n + perPage - 1"
  define tp where "tp = a div perPage"
  define p1 where "p1 = (if page < 1 then 1 else page)"
  define p2 where "p2 = (if p1 > tp then tp else p1)"
  have a0: "0 \<le> a" using assms by (simp add: a_def)
  have q: "quo (n + perPage - 1) perPage = tp"
    using a0 assms(2) by (simp add: quo_nonneg tp_def a_def)
  have "tp * perPage + a mod perPage = a" by (simp add: tp_def)
  moreover have "0 \<le> a mod perPage" "a mod perPage < perPage" using assms(2) by simp_all
  ultimately have lo: "tp * perPage \<le> a" and hi: "a < tp * perPage + perPage" by linarith+
  have "0 < tp * perPage" using hi assms by (simp add: a_def)
  then have tp1: "1 \<le> tp" using assms(2) by (simp add: zero_less_mult_iff)
  have p2: "1 \<le> p2" "p2 \<le> tp" using tp1 by (simp_all add: p2_def p1_def)
  have s0: "0 \<le> (p2 - 1) * perPage" using p2(1) assms(2) by simp
  have "(p2 - 1) * perPage \<le> (tp - 1) * perPage"
    using p2(2) assms(2) by (intro mult_right_mono) simp_all
  also have "\<dots> = tp * perPage - perPage" by (simp add: left_diff_distrib)
  also have "\<dots> \<le> n - 1" using lo by (simp add: a_def)
  finally have s1: "(p2 - 1) * perPage \<le> n - 1" .
  have "pageWindow perPage n page =
      (tp, p2, (p2 - 1) * perPage, if (p2 - 1) * perPage + perPage > n then n else (p2 - 1) * perPage + perPage)"
    by (simp add: pageWindow_def q Let_def p2_def p1_def)
  then show ?thesis
    using p2 s0 s1 assms(2) lo by (simp add: a_def)
qed

lemma slice_ok:
  "0 \<le> lo \<Longrightarrow> lo \<le> hi \<Longrightarrow> hi \<le> int (length xs) \<Longrightarrow>
   slice xs lo hi = Inr (take (nat (hi - lo)) (drop (nat lo) xs))"
  by (simp add: slice_def)

lemma page_slice:
  assumes "users \<noteq> []" and "0 < perPage"
    and "pageWindow perPage (int (length users)) page = (totalPages, page2, startIdx, endIdx)"
  shows "slice users startIdx endIdx = Inr (take (nat (endIdx - startIdx)) (drop (nat startIdx) users))"
proof -
  from assms(1) have "1 \<le> int (length users)" by (cases users) simp_all
  from pageWindow_bounds [OF this assms(2), of page] assms(3) show ?thesis
    by (simp add: slice_ok)
qed

lemma showUserSelection_total: "showUserSelection w chatID page action s \<noteq> Inl e"
proof (cases "users_result w (tick s)")
  case None
  then show ?thesis by (simp add: showUserSelection_def getUsers_def)
next
  case (Some users)
  show ?thesis
  proof (cases "users = []")
    case True
    with Some show ?thesis by (simp add: showUserSelection_def getUsers_def)
  next
    case False
    obtain tp p2 st en where pw: "pageWindow 10 (int (length users)) page = (tp, p2, st, en)"
      by (cases "pageWindow 10 (int (length users)) page") auto
    from page_slice [OF False _ pw] Some False pw show ?thesis
      by (simp add: showUserSelection_def getUsers_def Let_def)
  qed
qed

lemma showUsersForMessage_total: "showUsersForMessage b w chatID page s \<noteq> Inl e"
proof (cases "users_result w (tick s)")
  case None
  then show ?thesis by (simp add: showUsersForMessage_def getUsers_def)
next
  case (Some users)
  show ?thesis
  proof (cases "users = []")
    case True
    with Some show ?thesis by (simp add: showUsersForMessage_def getUsers_def)
  next
    case False
    obtain tp p2 st en where pw: "pageWindow 8 (int (length users)) page = (tp, p2, st, en)"
      by (cases "pageWindow 8 (int (length users)) page") auto
    from page_slice [OF False _ pw] Some False pw show ?thesis
      by (simp add: showUsersForMessage_def getUsers_def Let_def)
  qed
qed

text \<open>
  With fewer than 2^63 - perPage accounts and a page number that is an int64, every
  intermediate result of the page arithmetic is an int64: nothing wraps around.
\<close>

lemma pageWindow_no_overflow:
  assumes "1 \<le> n" and "0 < perPage" and "n + perPage < 2 ^ 63"
    and "- (2 ^ 63) \<le> page" and "page < 2 ^ 63"
  shows "let totalPages = quo (n + perPage - 1) perPage;
             page1 = (if page < 1 then 1 else page);
             page2 = (if page1 > totalPages then totalPages else page1);
             startIdx = (page2 - 1) * perPage;
             endIdx = startIdx + perPage
         in list_all (\<lambda>v. - (2 ^ 63) \<le> v \<and> v < 2 ^ 63)
              [n + perPage - 1, totalPages, page1, page2, page2 - 1, startIdx, endIdx]"
proof -
  define tp where "tp = quo (n + perPage - 1) perPage"
  define p1 where "p1 = (if page < 1 then 1 else page)"
  define p2 where "p2 = (if p1 > tp then tp else p1)"
  have pw: "pageWindow perPage n page =
      (tp, p2, (p2 - 1) * perPage, if (p2 - 1) * perPage + perPage > n then n else (p2 - 1) * perPage + perPage)"
    by (simp add: pageWindow_def Let_def p2_def p1_def tp_def)
  from pageWindow_bounds [OF assms(1,2), of page]
  have b: "1 \<le> p2" "p2 \<le> tp" "0 \<le> (p2 - 1) * perPage" "(p2 - 1) * perPage \<le> n"
    "tp * perPage < n + perPage"
    unfolding pw by (auto split: if_splits)
  have "tp * 1 \<le> tp * perPage" using b(1,2) assms(2) by (intro mult_left_mono) simp_all
  then have tpb: "tp < n + perPage" using b(5) by simp
  define st where "st = (p2 - 1) * perPage"
  have st: "0 \<le> st" "st \<le> n" using b(3,4) by (simp_all add: st_def)
  have p1: "1 \<le> p1" "p1 < 2 ^ 63" using assms(5) by (simp_all add: p1_def)
  show ?thesis
    unfolding Let_def tp_def [symmetric] p1_def [symmetric] p2_def [symmetric] st_def [symmetric]
    using b(1,2) tpb st p1 assms by simp
qed

text \<open>
  Claim C10. For every non-empty account list and every page number, the pager of
  showUserSelection (ten a page) and of showUserSelectionForMessage (eight a page) puts the
  page into [1, totalPages] and computes 0 <= start <= end <= len(users), so the slice
  users[start:end] does not panic; and no call of these functions, whatever the page number,
  the account list or the state, ends in a panic.
\<close>

theorem pager_in_bounds:
  "(users \<noteq> [] \<and> (perPage = 10 \<or> perPage = 8) \<longrightarrow>
      (case pageWindow perPage (int (length users)) page of
         (totalPages, page2, startIdx, endIdx) \<Rightarrow>
           1 \<le> page2 \<and> page2 \<le> totalPages \<and>
           0 \<le> startIdx \<and> startIdx \<le> endIdx \<and> endIdx \<le> int (length users) \<and>
           slice users startIdx endIdx = Inr (take (nat (endIdx - startIdx)) (drop (nat startIdx) users)))) \<and>
   (\<forall>e. showUserSelection w chatID page action s \<noteq> Inl e) \<and>
   (\<forall>e. showUserSelectionForMessage w chatID page s \<noteq> Inl e) \<and>
   (\<forall>e. showUserSelectionForMessage_III w chatID page s \<noteq> Inl e)"
proof (intro conjI impI allI)
  assume a: "users \<noteq> [] \<and> (perPage = 10 \<or> perPage = 8)"
  then have n: "1 \<le> int (length users)" and p: "0 < perPage" by (cases users; auto)+
  obtain tp p2 st en where pw: "pageWindow perPage (int (length users)) page = (tp, p2, st, en)"
    by (cases "pageWindow perPage (int (length users)) page") auto
  from pageWindow_bounds [OF n p, of page] page_slice [OF _ p pw] a
  show "case pageWindow perPage (int (length users)) page of
         (totalPages, page2, startIdx, endIdx) \<Rightarrow>
           1 \<le> page2 \<and> page2 \<le> totalPages \<and>
           0 \<le> startIdx \<and> startIdx \<le> endIdx \<and> endIdx \<le> int (length users) \<and>
           slice users startIdx endIdx = Inr (take (nat (endIdx - startIdx)) (drop (nat startIdx) users))"
    by (simp add: pw)
qed (simp_all add: showUserSelection_total showUsersForMessage_total
      showUserSelectionForMessage_def showUserSelectionForMessage_III_def)

lemma twelve_pages:
  "pageWindow 10 12 (- 3) = (2, 1, 0, 10)" "pageWindow 10 12 99 = (2, 2, 10, 12)"
  "pageWindow 8 12 0 = (2, 1, 0, 8)" "pageWindow 8 12 2 = (2, 2, 8, 12)"
  by (simp_all add: pageWindow_def quo_def)

theorem pager_in_bounds_witness:
  "twelve_users \<noteq> [] \<and> int (length twelve_users) = 12 \<and>
   pageWindow 10 (int (length twelve_users)) 99 = (2, 2, 10, 12) \<and>
   slice twelve_users 10 12 = Inr (take 2 (drop 10 twelve_users)) \<and>
   pageWindow 8 (int (length twelve_users)) (- 3) = (2, 1, 0, 8) \<and>
   slice twelve_users 0 8 = Inr (take 8 twelve_users)"
proof -
  have len: "int (length twelve_users) = 12" and ne: "twelve_users \<noteq> []"
    by (simp_all add: twelve_users_def)
  have w8: "pageWindow 8 12 (- 3) = (2, 1, 0, 8)" by (simp add: pageWindow_def quo_def)
  show ?thesis
    using pager_in_bounds [where users = twelve_users and perPage = 10 and page = 99]
      pager_in_bounds [where users = twelve_users and perPage = 8 and page = "- 3"]
      ne
    by (simp add: len twelve_pages w8)
qed

subsection \<open>Routing of the pagination tokens\<close>

lemma Split_nonempty: "Split s sep \<noteq> []"
  by (cases s) (simp_all split: list.splits)

lemma HasPrefix_append: "HasPrefix s p \<Longrightarrow> s = p @ drop (length p) s"
  by (metis HasPrefix_def append_take_drop_id)

lemma route_page_msg: "HasPrefix data ''page_msg:'' \<Longrightarrow> route data = Page"
proof -
  assume "HasPrefix data ''page_msg:''"
  then obtain rest where d: "data = ''page_msg:'' @ rest"
    using HasPrefix_append by blast
  show ?thesis unfolding d by (simp add: route_def HasPrefix_def)
qed

lemma route_never_page_msg: "route data \<noteq> PageMsg"
proof (cases "HasPrefix data ''page_''")
  case True
  then show ?thesis by (simp add: route_def)
next
  case False
  have "\<not> HasPrefix data ''page_msg:''"
  proof
    assume "HasPrefix data ''page_msg:''"
    then obtain rest where "data = ''page_msg:'' @ rest" using HasPrefix_append by blast
    then have "HasPrefix data ''page_''" by (simp add: HasPrefix_def)
    with False show False by simp
  qed
  then show ?thesis by (simp add: route_def)
qed

lemma handlePagination_page_msg:
  assumes "HasPrefix data ''page_msg:''"
  shows "handlePagination w chatID data s =
           showUserSelection w chatID (fst (Atoi (hd (Split (drop 9 data) CHR '':'')))) ''msg'' s"
proof -
  from assms obtain rest where d: "data = ''page_msg:'' @ rest"
    using HasPrefix_append by blast
  obtain p1 ps where sp: "Split rest CHR '':'' = p1 # ps"
    using Split_nonempty [of rest "CHR '':''"] by (cases "Split rest CHR '':''") auto
  show ?thesis
    unfolding d by (simp add: handlePagination_def sp)
qed

lemma saveChatSession_config [simp]:
  "config (saveChatSession w userID chatID s) = config s"
  "config (saveChatSession_II w userID chatID username s) = config s"
  by (simp_all add: saveChatSession_def saveChatSession_II_def timeNow_def saveChats_def emit_def
      step_def Let_def split: option.splits)

text \<open>
  Claim C9. No token is routed to the page_msg case: a token that begins with page_msg:
  begins with page_, so the earlier case takes it. handlePagination then reads the action
  msg and the page number after the colon and calls showUserSelection, and that is what
  the handler of each variant does for an admitted user.
\<close>

theorem page_msg_shadowed:
  "(\<forall>d. route d \<noteq> PageMsg) \<and>
   (HasPrefix (Data query) ''page_msg:'' \<longrightarrow>
      (let page = fst (Atoi (hd (Split (drop 9 (Data query)) CHR '':'')));
           userID = Query_From_ID query;
           chatID = Query_Chat_ID query
       in route (Data query) = Page \<and>
          handlePagination w chatID (Data query) s = showUserSelection w chatID page ''msg'' s \<and>
          (\<not> denied (config s) userID (Data query) \<longrightarrow>
             handleCallback w query s =
               (case showUserSelection w chatID page ''msg'' (saveChatSession w userID chatID s) of
                  Inl e \<Rightarrow> Inl e
                | Inr s1 \<Rightarrow> Inr (answer query [] s1)) \<and>
             handleCallback_II w query s =
               (case showUserSelection w chatID page ''msg''
                       (saveChatSession_II w userID chatID (Query_From_UserName query) s) of
                  Inl e \<Rightarrow> Inl e
                | Inr s1 \<Rightarrow> Inr (answer query [] s1)) \<and>
             handleCallback_III w query s =
               (case showUserSelection w chatID page ''msg''
                       (saveChatSession_II w userID chatID (Query_From_UserName query) s) of
                  Inl e \<Rightarrow> Inl e
                | Inr s1 \<Rightarrow> Inr (answer query [] s1)))))"
proof (intro conjI allI impI)
  show "route d \<noteq> PageMsg" for d by (rule route_never_page_msg)
next
  assume p: "HasPrefix (Data query) ''page_msg:''"
  show "let page = fst (Atoi (hd (Split (drop 9 (Data query)) CHR '':'')));
            userID = Query_From_ID query;
            chatID = Query_Chat_ID query
        in route (Data query) = Page \<and>
           handlePagination w chatID (Data query) s = showUserSelection w chatID page ''msg'' s \<and>
           (\<not> denied (config s) userID (Data query) \<longrightarrow>
              handleCallback w query s =
                (case showUserSelection w chatID page ''msg'' (saveChatSession w userID chatID s) of
                   Inl e \<Rightarrow> Inl e
                 | Inr s1 \<Rightarrow> Inr (answer query [] s1)) \<and>
              handleCallback_II w query s =
                (case showUserSelection w chatID page ''msg''
                        (saveChatSession_II w userID chatID (Query_From_UserName query) s) of
                   Inl e \<Rightarrow> Inl e
                 | Inr s1 \<Rightarrow> Inr (answer query [] s1)) \<and>
              handleCallback_III w query s =
                (case showUserSelection w chatID page ''msg''
                        (saveChatSession_II w userID chatID (Query_From_UserName query) s) of
                   Inl e \<Rightarrow> Inl e
                 | Inr s1 \<Rightarrow> Inr (answer query [] s1)))"
    unfolding Let_def
    by (simp add: route_page_msg [OF p] handlePagination_page_msg [OF p] handleCallback_def
        handleCallback_II_def handleCallback_III_def commonCase_def Let_def)
qed

lemma page_msg_query_facts:
  "HasPrefix (Data page_msg_query) ''page_msg:''"
  "\<not> denied (config scenario_state) (Query_From_ID page_msg_query) (Data page_msg_query)"
  "fst (Atoi (hd (Split (drop 9 (Data page_msg_query)) CHR '':''))) = 2"
  by (simp_all add: page_msg_query_def HasPrefix_def denied_def isAllowed_def scenario_state_def
      Atoi_def is_digit_def digits_value_def)

theorem page_msg_shadowed_witness:
  "HasPrefix (Data page_msg_query) ''page_msg:'' \<and>
   \<not> denied (config scenario_state) (Query_From_ID page_msg_query) (Data page_msg_query) \<and>
   route (Data page_msg_query) = Page \<and>
   handlePagination scenario_world 1 (Data page_msg_query) scenario_state =
     showUserSelection scenario_world 1 2 ''msg'' scenario_state \<and>
   handleCallback scenario_world page_msg_query scenario_state =
     (case showUserSelection scenario_world 1 2 ''msg''
             (saveChatSession scenario_world 1 1 scenario_state) of
        Inl e \<Rightarrow> Inl e
      | Inr s1 \<Rightarrow> Inr (answer page_msg_query [] s1))"
proof -
  have ids: "Query_From_ID page_msg_query = 1" "Query_Chat_ID page_msg_query = 1"
    by (simp_all add: page_msg_query_def)
  show ?thesis
    using page_msg_shadowed [where query = page_msg_query and w = scenario_world and s = scenario_state]
      page_msg_query_facts
    by (simp add: Let_def ids)
qed

subsection \<open>Where the variants part from the specification\<close>

lemma acks_simps [simp]:
  "acks [] = []"
  "acks (e # tr) = ack_of e @ acks tr"
  "acks (tr @ tr') = acks tr @ acks tr'"
  by (simp_all add: acks_def)

text \<open>
  Claim C5 fails on the button clicks of variant I: handleCallback checks the access first
  and returns on a denial, so the registry is what it was, and a user who was not
  registered is not registered afterwards.
\<close>

theorem callback_denied_unrecorded:
  assumes "denied (config s) (Query_From_ID query) (Data query)"
  shows "handleCallback w query s = Inr (answer query ''Akses Ditolak'' s) \<and>
         activeChats (answer query ''Akses Ditolak'' s) = activeChats s"
  using assms by (simp add: handleCallback_def Let_def answer_def emit_def)

theorem callback_denied_unrecorded_witness:
  "denied (config idle_state) (Query_From_ID stranger_query) (Data stranger_query) \<and>
   map_of (activeChats idle_state) 7 = None \<and>
   (case handleCallback scenario_world stranger_query idle_state of
      Inl e \<Rightarrow> False
    | Inr s' \<Rightarrow>
        map_of (activeChats s') 7 = None \<and>
        acks (new_effects idle_state s') = [(''q7'', ''Akses Ditolak'')])"
proof -
  have d: "denied (config idle_state) (Query_From_ID stranger_query) (Data stranger_query)"
    by (simp add: denied_def isAllowed_def idle_state_def scenario_state_def stranger_query_def)
  have r: "map_of (activeChats idle_state) 7 = None"
    by (simp add: idle_state_def scenario_state_def)
  show ?thesis
    using callback_denied_unrecorded [OF d, of scenario_world] d r
    by (simp add: answer_def emit_def new_effects_def stranger_query_def)
qed

lemma saveChatSession_frame [simp]:
  "userStates (saveChatSession w userID chatID s) = userStates s"
  "tempUserData (saveChatSession w userID chatID s) = tempUserData s"
  "lastMessageIDs (saveChatSession w userID chatID s) = lastMessageIDs s"
  "userStates (saveChatSession_II w userID chatID username s) = userStates s"
  "tempUserData (saveChatSession_II w userID chatID username s) = tempUserData s"
  "lastMessageIDs (saveChatSession_II w userID chatID username s) = lastMessageIDs s"
  by (simp_all add: saveChatSession_def saveChatSession_II_def timeNow_def saveChats_def emit_def
      step_def Let_def split: option.splits)

lemma saveChatSession_recorded:
  "map_of (activeChats (saveChatSession w userID chatID s)) userID \<noteq> None"
  "map_of (activeChats (saveChatSession_II w userID chatID username s)) userID \<noteq> None"
  by (simp_all add: saveChatSession_def saveChatSession_II_def timeNow_def saveChats_def emit_def
      step_def Let_def update_conv' split: option.splits)

text \<open>Recording a session adds at most a write of the session file to the trace.\<close>

lemma saveChatSession_trace:
  "\<exists>X. trace (saveChatSession w userID chatID s) = trace s @ X \<and> (X = [] \<or> (\<exists>cs. X = [WriteChats cs]))"
  "\<exists>X. trace (saveChatSession_II w userID chatID username s) = trace s @ X \<and>
       (X = [] \<or> (\<exists>cs. X = [WriteChats cs]))"
  by (simp_all add: saveChatSession_def saveChatSession_II_def timeNow_def saveChats_def emit_def
      step_def Let_def split: option.splits)

text \<open>
  Claim C7 fails on variants II and III: for a token that no case of the switch matches,
  the default case answers the query and the answer after the switch follows, so an
  admitted user's unrecognized click is answered twice.
\<close>

theorem unknown_token_answered_twice:
  assumes "route (Data query) = Default"
    and "\<not> denied (config s) (Query_From_ID query) (Data query)"
  shows "(case handleCallback_II w query s of
            Inl e \<Rightarrow> False
          | Inr s' \<Rightarrow>
              acks (new_effects s s') = [(Query_ID query, ''Aksi tidak dikenal''), (Query_ID query, [])]) \<and>
         (case handleCallback_III w query s of
            Inl e \<Rightarrow> False
          | Inr s' \<Rightarrow>
              acks (new_effects s s') = [(Query_ID query, ''Aksi tidak dikenal''), (Query_ID query, [])])"
proof -
  define s0 where
    "s0 = saveChatSession_II w (Query_From_ID query) (Query_Chat_ID query) (Query_From_UserName query) s"
  obtain X where X: "trace s0 = trace s @ X" "X = [] \<or> (\<exists>cs. X = [WriteChats cs])"
    unfolding s0_def using saveChatSession_trace(2) by blast
  have a: "acks X = []" using X(2) by auto
  have r: "handleCallback_II w query s = Inr (answer query [] (answer query ''Aksi tidak dikenal'' s0))"
    "handleCallback_III w query s = Inr (answer query [] (answer query ''Aksi tidak dikenal'' s0))"
    using assms by (simp_all add: handleCallback_II_def handleCallback_III_def Let_def s0_def)
  have "new_effects s (answer query [] (answer query ''Aksi tidak dikenal'' s0)) =
      X @ [AnswerCallback (Query_ID query) ''Aksi tidak dikenal'', AnswerCallback (Query_ID query) []]"
    by (simp add: new_effects_def answer_def emit_def X(1))
  then show ?thesis by (simp add: r a)
qed

theorem unknown_token_answered_twice_witness:
  "route (Data unknown_query) = Default \<and>
   \<not> denied (config idle_state) (Query_From_ID unknown_query) (Data unknown_query) \<and>
   (case handleCallback_II scenario_world unknown_query idle_state of
      Inl e \<Rightarrow> False
    | Inr s' \<Rightarrow> acks (new_effects idle_state s') = [(''q2'', ''Aksi tidak dikenal''), (''q2'', [])]) \<and>
   (case handleCallback_III scenario_world unknown_query idle_state of
      Inl e \<Rightarrow> False
    | Inr s' \<Rightarrow> acks (new_effects idle_state s') = [(''q2'', ''Aksi tidak dikenal''), (''q2'', [])])"
proof -
  have r: "route (Data unknown_query) = Default"
    by (simp add: unknown_query_def route_def HasPrefix_def)
  have d: "\<not> denied (config idle_state) (Query_From_ID unknown_query) (Data unknown_query)"
    by (simp add: denied_def isAllowed_def idle_state_def scenario_state_def unknown_query_def)
  have q: "Query_ID unknown_query = ''q2''" by (simp add: unknown_query_def)
  show ?thesis
    using unknown_token_answered_twice [OF r d, of scenario_world] r d
    by (simp add: q split: sum.splits)
qed

text \<open>
  Claim C8 fails on variant I: its handleMessage ends after the commands, so a text that is
  neither awaited nor a command is recorded and gets no answer.
\<close>

theorem free_text_unanswered:
  assumes "isAllowed (config s) (From_ID msg)"
    and "userStates s (From_ID msg) = None"
    and "\<not> IsCommand msg"
  shows "handleMessage w msg s = Inr (saveChatSession w (From_ID msg) (Chat_ID msg) s) \<and>
         sent (new_effects s (saveChatSession w (From_ID msg) (Chat_ID msg) s)) = []"
proof -
  obtain X where X: "trace (saveChatSession w (From_ID msg) (Chat_ID msg) s) = trace s @ X"
    "X = [] \<or> (\<exists>cs. X = [WriteChats cs])"
    using saveChatSession_trace(1) by blast
  have "sent X = []" using X(2) by auto
  then have "sent (new_effects s (saveChatSession w (From_ID msg) (Chat_ID msg) s)) = []"
    by (simp add: new_effects_def X(1))
  moreover have "handleMessage w msg s = Inr (saveChatSession w (From_ID msg) (Chat_ID msg) s)"
    using assms by (simp add: handleMessage_def Let_def)
  ultimately show ?thesis by simp
qed

theorem free_text_unanswered_witness:
  "isAllowed (config idle_state) (From_ID (scenario_msg ''hello'')) \<and>
   userStates idle_state (From_ID (scenario_msg ''hello'')) = None \<and>
   \<not> IsCommand (scenario_msg ''hello'') \<and>
   (case handleMessage scenario_world (scenario_msg ''hello'') idle_state of
      Inl e \<Rightarrow> False
    | Inr s' \<Rightarrow> sent (new_effects idle_state s') = [] \<and> menus (new_effects idle_state s') = [])"
proof -
  have a: "isAllowed (config idle_state) (From_ID (scenario_msg ''hello''))"
    "userStates idle_state (From_ID (scenario_msg ''hello'')) = None"
    "\<not> IsCommand (scenario_msg ''hello'')"
    by (simp_all add: isAllowed_def idle_state_def scenario_state_def scenario_msg_def)
  have known: "saveChatSession scenario_world (From_ID (scenario_msg ''hello''))
      (Chat_ID (scenario_msg ''hello'')) idle_state = idle_state"
    by (simp add: saveChatSession_def idle_state_def scenario_state_def scenario_msg_def)
  show ?thesis
    using free_text_unanswered [OF a, of scenario_world] a
    by (simp add: known new_effects_def)
qed

subsection \<open>Access control and the registry\<close>

lemma denied_reply:
  assumes "trace s1 = trace s @ X" and "sent X = []"
  shows "sent (new_effects s (replyError w chatID (Wording t args) s1)) = [(chatID, ''X '' @ t)]"
  using assms by (simp add: new_effects_def replyError_trace)

text \<open>
  In every variant a text message from a user without access is answered by the denial
  notice, and the user's session is in the registry afterwards.
\<close>

theorem message_denied_recorded:
  assumes "\<not> isAllowed (config s) (From_ID msg)"
  shows "(case handleMessage w msg s of
            Inl e \<Rightarrow> False
          | Inr s' \<Rightarrow>
              map_of (activeChats s') (From_ID msg) \<noteq> None \<and>
              sent (new_effects s s') = [(Chat_ID msg, ''X Akses Ditolak. Bot ini Private.'')]) \<and>
         (case handleMessage_II w msg s of
            Inl e \<Rightarrow> False
          | Inr s' \<Rightarrow>
              map_of (activeChats s') (From_ID msg) \<noteq> None \<and>
              sent (new_effects s s') = [(Chat_ID msg, ''X Akses Ditolak. Bot ini Private.'')]) \<and>
         (case handleMessage_III w msg s of
            Inl e \<Rightarrow> False
          | Inr s' \<Rightarrow>
              map_of (activeChats s') (From_ID msg) \<noteq> None \<and>
              sent (new_effects s s') = [(Chat_ID msg, ''X Akses Ditolak. Bot ini Private.'')])"
proof -
  define s1 where "s1 = saveChatSession w (From_ID msg) (Chat_ID msg) s"
  define s2 where "s2 = saveChatSession_II w (From_ID msg) (Chat_ID msg) (From_UserName msg) s"
  obtain X1 where X1: "trace s1 = trace s @ X1" "sent X1 = []"
    using saveChatSession_trace(1) [where w = w and userID = "From_ID msg" and chatID = "Chat_ID msg" and s = s] unfolding s1_def by auto
  obtain X2 where X2: "trace s2 = trace s @ X2" "sent X2 = []"
    using saveChatSession_trace(2) [where w = w and userID = "From_ID msg" and chatID = "Chat_ID msg" and
      username = "From_UserName msg" and s = s]
    unfolding s2_def by auto
  have r: "handleMessage w msg s = Inr (replyError w (Chat_ID msg) (Wording ''Akses Ditolak. Bot ini Private.'' []) s1)"
    "handleMessage_II w msg s = Inr (replyError w (Chat_ID msg) (Wording ''Akses Ditolak. Bot ini Private.'' []) s2)"
    "handleMessage_III w msg s = Inr (replyError w (Chat_ID msg) (Wording ''Akses Ditolak. Bot ini Private.'' []) s2)"
    using assms
    by (simp_all add: handleMessage_def handleMessage_II_def handleMessage_III_def Let_def s1_def s2_def)
  have k: "map_of (activeChats (replyError w c t s1)) (From_ID msg) \<noteq> None"
    "map_of (activeChats (replyError w c t s2)) (From_ID msg) \<noteq> None" for c t
    using saveChatSession_recorded [where w = w and userID = "From_ID msg" and chatID = "Chat_ID msg" and s = s]
    by (cases t; simp add: replyError_def s1_def s2_def)+
  show ?thesis
    unfolding r using k denied_reply [OF X1] denied_reply [OF X2] by simp
qed

theorem message_denied_recorded_witness:
  "\<not> isAllowed (config idle_state) (From_ID stranger_msg) \<and>
   map_of (activeChats idle_state) 7 = None \<and>
   (case handleMessage scenario_world stranger_msg idle_state of
      Inl e \<Rightarrow> False
    | Inr s' \<Rightarrow> map_of (activeChats s') 7 \<noteq> None \<and> userStates s' 7 = None) \<and>
   (case handleMessage_II scenario_world stranger_msg idle_state of
      Inl e \<Rightarrow> False
    | Inr s' \<Rightarrow> map_of (activeChats s') 7 \<noteq> None \<and> userStates s' 7 = None)"
proof -
  have d: "\<not> isAllowed (config idle_state) (From_ID stranger_msg)"
    by (simp add: isAllowed_def idle_state_def scenario_state_def stranger_msg_def)
  have n: "map_of (activeChats idle_state) 7 = None" "From_ID stranger_msg = 7"
    by (simp_all add: idle_state_def scenario_state_def stranger_msg_def)
  have u: "handleMessage scenario_world stranger_msg idle_state = Inr s' \<Longrightarrow> userStates s' 7 = None"
    "handleMessage_II scenario_world stranger_msg idle_state = Inr s' \<Longrightarrow> userStates s' 7 = None" for s'
    using d by (auto simp: handleMessage_def handleMessage_II_def Let_def replyError_def
        idle_state_def scenario_state_def)
  show ?thesis
    using message_denied_recorded [OF d, of scenario_world] d n u
    by (auto split: sum.splits)
qed

text \<open>
  In variants II and III a denied button click is answered by the denial notice, once, and
  the user's session is in the registry afterwards.
\<close>

theorem callback_denied_recorded:
  assumes "denied (config s) (Query_From_ID query) (Data query)"
  shows "(case handleCallback_II w query s of
            Inl e \<Rightarrow> False
          | Inr s' \<Rightarrow>
              map_of (activeChats s') (Query_From_ID query) \<noteq> None \<and>
              acks (new_effects s s') = [(Query_ID query, ''Akses Ditolak'')]) \<and>
         (case handleCallback_III w query s of
            Inl e \<Rightarrow> False
          | Inr s' \<Rightarrow>
              map_of (activeChats s') (Query_From_ID query) \<noteq> None \<and>
              acks (new_effects s s') = [(Query_ID query, ''Akses Ditolak'')])"
proof -
  define s0 where
    "s0 = saveChatSession_II w (Query_From_ID query) (Query_Chat_ID query) (Query_From_UserName query) s"
  obtain X where X: "trace s0 = trace s @ X" "acks X = []"
    using saveChatSession_trace(2) [where w = w and userID = "Query_From_ID query" and
      chatID = "Query_Chat_ID query" and username = "Query_From_UserName query" and s = s]
    unfolding s0_def by auto
  have r: "handleCallback_II w query s = Inr (answer query ''Akses Ditolak'' s0)"
    "handleCallback_III w query s = Inr (answer query ''Akses Ditolak'' s0)"
    using assms by (simp_all add: handleCallback_II_def handleCallback_III_def Let_def s0_def)
  have "acks (new_effects s (answer query ''Akses Ditolak'' s0)) = [(Query_ID query, ''Akses Ditolak'')]"
    using X by (simp add: new_effects_def answer_def emit_def)
  moreover have "map_of (activeChats (answer query ''Akses Ditolak'' s0)) (Query_From_ID query) \<noteq> None"
    using saveChatSession_recorded(2) by (simp add: answer_def emit_def s0_def)
  ultimately show ?thesis by (simp add: r)
qed

theorem callback_denied_recorded_witness:
  "denied (config idle_state) (Query_From_ID stranger_query) (Data stranger_query) \<and>
   map_of (activeChats idle_state) 7 = None \<and>
   (case handleCallback_II scenario_world stranger_query idle_state of
      Inl e \<Rightarrow> False
    | Inr s' \<Rightarrow>
        map_of (activeChats s') 7 \<noteq> None \<and>
        acks (new_effects idle_state s') = [(''q7'', ''Akses Ditolak'')])"
proof -
  have d: "denied (config idle_state) (Query_From_ID stranger_query) (Data stranger_query)"
    by (simp add: denied_def isAllowed_def idle_state_def scenario_state_def stranger_query_def)
  have n: "map_of (activeChats idle_state) 7 = None" "Query_From_ID stranger_query = 7"
    "Query_ID stranger_query = ''q7''"
    by (simp_all add: idle_state_def scenario_state_def stranger_query_def)
  show ?thesis
    using callback_denied_recorded [OF d, of scenario_world] d n
    by (auto split: sum.splits)
qed

text \<open>
  In variants II and III a text of an admitted user that is neither awaited nor a command
  is answered by the idle main menu.
\<close>

theorem free_text_shows_menu:
  assumes "isAllowed (config s) (From_ID msg)"
    and "userStates s (From_ID msg) = None"
    and "\<not> IsCommand msg"
  shows "(case handleMessage_II w msg s of
            Inl e \<Rightarrow> False
          | Inr s' \<Rightarrow> sent (new_effects s s') = [(Chat_ID msg, ''ZIVPN UDP MENU'')]) \<and>
         (case handleMessage_III w msg s of
            Inl e \<Rightarrow> False
          | Inr s' \<Rightarrow> sent (new_effects s s') = [(Chat_ID msg, ''ZIVPN UDP MENU'')])"
proof -
  define s2 where "s2 = saveChatSession_II w (From_ID msg) (Chat_ID msg) (From_UserName msg) s"
  obtain X where X: "trace s2 = trace s @ X" "sent X = []"
    using saveChatSession_trace(2) [where w = w and userID = "From_ID msg" and chatID = "Chat_ID msg" and
      username = "From_UserName msg" and s = s]
    unfolding s2_def by auto
  have r: "handleMessage_II w msg s = Inr (showMainMenu w (Chat_ID msg) s2)"
    "handleMessage_III w msg s = Inr (showMainMenu w (Chat_ID msg) s2)"
    using assms by (simp_all add: handleMessage_II_def handleMessage_III_def Let_def s2_def)
  have "sent (menu_effects w c s2) = [(c, ''ZIVPN UDP MENU'')]" for c
    by (simp add: menu_effects_def split: option.splits)
  then have "sent (new_effects s (showMainMenu w (Chat_ID msg) s2)) = [(Chat_ID msg, ''ZIVPN UDP MENU'')]"
    using X by (simp add: new_effects_def showMainMenu_trace)
  then show ?thesis by (simp add: r)
qed

theorem free_text_shows_menu_witness:
  "isAllowed (config idle_state) (From_ID (scenario_msg ''hello'')) \<and>
   userStates idle_state (From_ID (scenario_msg ''hello'')) = None \<and>
   \<not> IsCommand (scenario_msg ''hello'') \<and>
   (case handleMessage_II scenario_world (scenario_msg ''hello'') idle_state of
      Inl e \<Rightarrow> False
    | Inr s' \<Rightarrow> sent (new_effects idle_state s') = [(1, ''ZIVPN UDP MENU'')]) \<and>
   (case handleMessage_III scenario_world (scenario_msg ''hello'') idle_state of
      Inl e \<Rightarrow> False
    | Inr s' \<Rightarrow> sent (new_effects idle_state s') = [(1, ''ZIVPN UDP MENU'')])"
proof -
  have a: "isAllowed (config idle_state) (From_ID (scenario_msg ''hello''))"
    "userStates idle_state (From_ID (scenario_msg ''hello'')) = None"
    "\<not> IsCommand (scenario_msg ''hello'')"
    by (simp_all add: isAllowed_def idle_state_def scenario_state_def scenario_msg_def)
  have c: "Chat_ID (scenario_msg ''hello'') = 1" by (simp add: scenario_msg_def)
  show ?thesis
    using free_text_shows_menu [OF a, of scenario_world] a
    by (auto simp: c split: sum.splits)
qed

subsection \<open>The duration steps and the registry invariant\<close>

lemma validateNumber_bad:
  assumes "\<not> snd (Atoi tx) \<or> fst (Atoi tx) < lo \<or> fst (Atoi tx) > hi"
  shows "validateNumber w chatID tx lo hi field s =
           ((0, False), sendMessage w chatID
                          (Wording ''%s harus angka positif (%d-%d). Coba lagi:'' [S field, N lo, N hi]) s)"
proof -
  obtain v ok where a: "Atoi tx = (v, ok)" by (cases "Atoi tx")
  with assms have "\<not> ok \<or> v < lo \<or> v > hi" by simp
  then show ?thesis unfolding validateNumber_def a by simp
qed

lemma handleStateWith_days_bad:
  assumes "st = ''create_days'' \<or> st = ''renew_days''"
    and "\<not> snd (Atoi (TrimSpace (Text msg))) \<or> fst (Atoi (TrimSpace (Text msg))) < 1 \<or>
         fst (Atoi (TrimSpace (Text msg))) > 9999"
  shows "handleStateWith b p w msg st s =
           Inr (sendMessage w (Chat_ID msg)
                  (Wording ''%s harus angka positif (%d-%d). Coba lagi:'' [S ''Durasi'', N 1, N 9999]) s)"
proof -
  note v = validateNumber_bad [OF assms(2), of w "Chat_ID msg" "''Durasi''" s]
  from assms(1) show ?thesis
  proof
    assume "st = ''create_days''"
    then show ?thesis by (simp add: handleStateWith_def Let_def v)
  next
    assume "st = ''renew_days''"
    then show ?thesis by (simp add: handleStateWith_def Let_def v)
  qed
qed

text \<open>
  In the duration steps of the create and renew flows, a text that (trimmed) is not an
  integer or lies outside [1, 9999] is answered by one error prompt; the conversation
  states and the scratch data stay as they are. This holds in every variant.
\<close>

theorem duration_step_rejects:
  assumes "st = ''create_days'' \<or> st = ''renew_days''"
    and "\<not> snd (Atoi (TrimSpace (Text msg))) \<or> fst (Atoi (TrimSpace (Text msg))) < 1 \<or>
         fst (Atoi (TrimSpace (Text msg))) > 9999"
  shows "handleState_II w msg st s = handleState w msg st s \<and>
         handleState_III w msg st s = handleState w msg st s \<and>
         (case handleState w msg st s of
            Inl e \<Rightarrow> False
          | Inr s' \<Rightarrow>
              userStates s' = userStates s \<and> tempUserData s' = tempUserData s \<and>
              sent (new_effects s s') = [(Chat_ID msg, ''%s harus angka positif (%d-%d). Coba lagi:'')])"
  unfolding handleState_def handleState_II_def handleState_III_def
    handleStateWith_days_bad [OF assms]
  by simp

lemma atoi_examples:
  "Atoi ''0'' = (0, True)" "Atoi ''ten'' = (0, False)"
  by (simp_all add: Atoi_def is_digit_def digits_value_def)

lemma trim_digits: "TrimSpace ''0'' = ''0''" "TrimSpace ''ten'' = ''ten''"
  by code_simp+

theorem duration_step_rejects_witness:
  "fst (Atoi (TrimSpace (Text (scenario_msg ''0'')))) < 1 \<and>
   \<not> snd (Atoi (TrimSpace (Text (scenario_msg ''ten'')))) \<and>
   (case handleState scenario_world (scenario_msg ''0'') ''create_days'' create_state of
      Inl e \<Rightarrow> False
    | Inr s' \<Rightarrow> userStates s' = userStates create_state \<and> tempUserData s' = tempUserData create_state) \<and>
   (case handleState scenario_world (scenario_msg ''ten'') ''renew_days'' create_state of
      Inl e \<Rightarrow> False
    | Inr s' \<Rightarrow> userStates s' = userStates create_state \<and> tempUserData s' = tempUserData create_state)"
proof -
  have t: "Text (scenario_msg x) = x" for x by (simp add: scenario_msg_def)
  have a: "fst (Atoi (TrimSpace (Text (scenario_msg ''0'')))) < 1"
    and b: "\<not> snd (Atoi (TrimSpace (Text (scenario_msg ''ten''))))"
    by (simp_all add: t trim_digits atoi_examples)
  have a': "\<not> snd (Atoi (TrimSpace (Text (scenario_msg ''0'')))) \<or>
      fst (Atoi (TrimSpace (Text (scenario_msg ''0'')))) < 1 \<or>
      fst (Atoi (TrimSpace (Text (scenario_msg ''0'')))) > 9999"
    using a by blast
  have b': "\<not> snd (Atoi (TrimSpace (Text (scenario_msg ''ten'')))) \<or>
      fst (Atoi (TrimSpace (Text (scenario_msg ''ten'')))) < 1 \<or>
      fst (Atoi (TrimSpace (Text (scenario_msg ''ten'')))) > 9999"
    using b by blast
  have c: "case handleState scenario_world (scenario_msg ''0'') ''create_days'' create_state of
      Inl e \<Rightarrow> False
    | Inr s' \<Rightarrow> userStates s' = userStates create_state \<and> tempUserData s' = tempUserData create_state"
    using duration_step_rejects [OF disjI1 [OF refl] a', of scenario_world create_state]
    by (cases "handleState scenario_world (scenario_msg ''0'') ''create_days'' create_state") simp_all
  have r: "case handleState scenario_world (scenario_msg ''ten'') ''renew_days'' create_state of
      Inl e \<Rightarrow> False
    | Inr s' \<Rightarrow> userStates s' = userStates create_state \<and> tempUserData s' = tempUserData create_state"
    using duration_step_rejects [OF disjI2 [OF refl] b', of scenario_world create_state]
    by (cases "handleState scenario_world (scenario_msg ''ten'') ''renew_days'' create_state") simp_all
  show ?thesis by (intro conjI a b c r)
qed

text \<open>
  The registry holds at most one session for a user: recording a session keeps the keys
  distinct, and recording the same event a second time does not make the registry longer.
\<close>

theorem upsert_idempotent:
  "(distinct (map fst (activeChats s)) \<longrightarrow>
      distinct (map fst (activeChats (saveChatSession w userID chatID s))) \<and>
      distinct (map fst (activeChats (saveChatSession_II w userID chatID username s)))) \<and>
   length (activeChats (saveChatSession w' userID chatID (saveChatSession w userID chatID s))) =
     length (activeChats (saveChatSession w userID chatID s)) \<and>
   length (activeChats (saveChatSession_II w' userID chatID username
                          (saveChatSession_II w userID chatID username s))) =
     length (activeChats (saveChatSession_II w userID chatID username s))"
proof -
  have len: "length (AList.update k v al) = (if k \<in> fst ` set al then length al else Suc (length al))"
    for k :: int and v :: ChatSession and al
    by (induction al) auto
  have d: "distinct (map fst (activeChats s)) \<longrightarrow>
      distinct (map fst (activeChats (saveChatSession w userID chatID s))) \<and>
      distinct (map fst (activeChats (saveChatSession_II w userID chatID username s)))"
    by (simp add: saveChatSession_def saveChatSession_II_def timeNow_def saveChats_def emit_def
        step_def Let_def distinct_update split: option.splits)
  have known: "saveChatSession w' userID chatID t = t" if "map_of (activeChats t) userID \<noteq> None" for t
    using that by (auto simp: saveChatSession_def)
  have one: "saveChatSession w' userID chatID (saveChatSession w userID chatID s) =
      saveChatSession w userID chatID s"
    by (rule known) (rule saveChatSession_recorded)
  have two: "length (activeChats (saveChatSession_II w' userID chatID username
                          (saveChatSession_II w userID chatID username s))) =
     length (activeChats (saveChatSession_II w userID chatID username s))"
    by (simp add: saveChatSession_II_def timeNow_def saveChats_def emit_def step_def Let_def len dom_update)
  have one': "length (activeChats (saveChatSession w' userID chatID (saveChatSession w userID chatID s))) =
     length (activeChats (saveChatSession w userID chatID s))"
    by (simp only: one)
  show ?thesis by (intro conjI d one' two)
qed

theorem upsert_idempotent_witness:
  "distinct (map fst (activeChats idle_state)) \<and>
   length (activeChats idle_state) = 3 \<and>
   length (activeChats (saveChatSession_II scenario_world 7 7 ''mallory'' idle_state)) = 4 \<and>
   length (activeChats (saveChatSession_II scenario_world 7 7 ''mallory''
                          (saveChatSession_II scenario_world 7 7 ''mallory'' idle_state))) = 4 \<and>
   distinct (map fst (activeChats (saveChatSession_II scenario_world 7 7 ''mallory'' idle_state)))"
proof -
  have d: "distinct (map fst (activeChats idle_state))" "length (activeChats idle_state) = 3"
    by (simp_all add: idle_state_def scenario_state_def)
  have l: "length (activeChats (saveChatSession_II scenario_world 7 7 ''mallory'' idle_state)) = 4"
    by (simp add: saveChatSession_II_def timeNow_def saveChats_def emit_def step_def Let_def
        idle_state_def scenario_state_def scenario_world_def)
  note u = upsert_idempotent [where s = idle_state and w = scenario_world and w' = scenario_world and
      userID = 7 and chatID = 7 and username = "''mallory''"]
  from u have a: "length (activeChats (saveChatSession_II scenario_world 7 7 ''mallory''
                          (saveChatSession_II scenario_world 7 7 ''mallory'' idle_state))) =
      length (activeChats (saveChatSession_II scenario_world 7 7 ''mallory'' idle_state))"
    by (rule conjunct2 [THEN conjunct2])
  from u d(1) have c: "distinct (map fst (activeChats (saveChatSession_II scenario_world 7 7 ''mallory'' idle_state)))"
    by blast
  from a l have a4: "length (activeChats (saveChatSession_II scenario_world 7 7 ''mallory''
                          (saveChatSession_II scenario_world 7 7 ''mallory'' idle_state))) = 4"
    by (rule trans)
  show ?thesis
    by (intro conjI d l a4 c)
qed

subsection \<open>The cancel button and malformed page tokens\<close>

lemma acks_menu [simp]: "acks (menu_effects w chatID s) = []"
  by (simp add: menu_effects_def split: option.splits)

lemma route_cancel: "route ''cancel'' = Cancel"
  by (simp add: route_def HasPrefix_def)

lemma cancel_after_save:
  assumes "trace s0 = trace s @ X" and "X = [] \<or> (\<exists>cs. X = [WriteChats cs])"
  shows "userStates (answer query [] (cancelOperation w chatID u s0)) u = None"
    and "tempUserData (answer query [] (cancelOperation w chatID u s0)) u = None"
    and "menus (new_effects s (answer query [] (cancelOperation w chatID u s0))) = [chatID]"
    and "acks (new_effects s (answer query [] (cancelOperation w chatID u s0))) = [(Query_ID query, [])]"
proof -
  have x: "menus X = []" "acks X = []" using assms(2) by auto
  have tr: "trace (answer query [] (cancelOperation w chatID u s0)) =
      trace s @ X @ menu_effects w chatID (resetState u s0) @ [AnswerCallback (Query_ID query) []]"
    by (simp add: answer_def emit_def cancelOperation_def showMainMenu_trace assms(1))
  show "userStates (answer query [] (cancelOperation w chatID u s0)) u = None"
    "tempUserData (answer query [] (cancelOperation w chatID u s0)) u = None"
    by (simp_all add: answer_def emit_def cancelOperation_def)
  show "menus (new_effects s (answer query [] (cancelOperation w chatID u s0))) = [chatID]"
    "acks (new_effects s (answer query [] (cancelOperation w chatID u s0))) = [(Query_ID query, [])]"
    by (simp_all add: new_effects_def tr x)
qed

text \<open>
  In every variant the cancel button, pressed by an admitted user at any step of any flow,
  clears the user's conversation state and scratch data and shows the idle menu.
\<close>

theorem cancel_returns_to_idle:
  assumes "Data query = ''cancel''"
    and "\<not> denied (config s) (Query_From_ID query) (Data query)"
  shows "(case handleCallback w query s of Inl e \<Rightarrow> False | Inr s' \<Rightarrow> idle_again query s s') \<and>
         (case handleCallback_II w query s of Inl e \<Rightarrow> False | Inr s' \<Rightarrow> idle_again query s s') \<and>
         (case handleCallback_III w query s of Inl e \<Rightarrow> False | Inr s' \<Rightarrow> idle_again query s s')"
proof -
  define u where "u = Query_From_ID query"
  define c where "c = Query_Chat_ID query"
  define s1 where "s1 = saveChatSession w u c s"
  define s2 where "s2 = saveChatSession_II w u c (Query_From_UserName query) s"
  obtain X1 where X1: "trace s1 = trace s @ X1" "X1 = [] \<or> (\<exists>cs. X1 = [WriteChats cs])"
    unfolding s1_def using saveChatSession_trace(1) by blast
  obtain X2 where X2: "trace s2 = trace s @ X2" "X2 = [] \<or> (\<exists>cs. X2 = [WriteChats cs])"
    unfolding s2_def using saveChatSession_trace(2) by blast
  have r: "handleCallback w query s = Inr (answer query [] (cancelOperation w c u s1))"
    "handleCallback_II w query s = Inr (answer query [] (cancelOperation w c u s2))"
    "handleCallback_III w query s = Inr (answer query [] (cancelOperation w c u s2))"
    using assms
    by (simp_all add: handleCallback_def handleCallback_II_def handleCallback_III_def Let_def
        commonCase_def route_cancel u_def c_def s1_def s2_def)
  have "idle_again query s (answer query [] (cancelOperation w c u s1))"
    unfolding idle_again_def u_def [symmetric] c_def [symmetric]
    using cancel_after_save [OF X1, of query w c u] by simp
  moreover have "idle_again query s (answer query [] (cancelOperation w c u s2))"
    unfolding idle_again_def u_def [symmetric] c_def [symmetric]
    using cancel_after_save [OF X2, of query w c u] by simp
  ultimately show ?thesis by (simp add: r)
qed

theorem cancel_returns_to_idle_witness:
  "Data cancel_query = ''cancel'' \<and>
   \<not> denied (config create_state) (Query_From_ID cancel_query) (Data cancel_query) \<and>
   userStates create_state 1 = Some ''create_username'' \<and>
   (case handleCallback scenario_world cancel_query create_state of
      Inl e \<Rightarrow> False
    | Inr s' \<Rightarrow> idle_again cancel_query create_state s' \<and> userStates s' 1 = None) \<and>
   (case handleCallback_II scenario_world cancel_query create_state of
      Inl e \<Rightarrow> False
    | Inr s' \<Rightarrow> idle_again cancel_query create_state s' \<and> userStates s' 1 = None)"
proof -
  have a: "Data cancel_query = ''cancel''"
    and d: "\<not> denied (config create_state) (Query_From_ID cancel_query) (Data cancel_query)"
    and st: "userStates create_state 1 = Some ''create_username''"
    and q: "Query_From_ID cancel_query = 1"
    by (simp_all add: cancel_query_def denied_def isAllowed_def create_state_def scenario_state_def)
  note t = cancel_returns_to_idle [OF a d, of scenario_world]
  have i: "idle_again cancel_query create_state s' \<Longrightarrow> userStates s' 1 = None" for s'
    by (simp add: idle_again_def q)
  have c1: "case handleCallback scenario_world cancel_query create_state of
      Inl e \<Rightarrow> False
    | Inr s' \<Rightarrow> idle_again cancel_query create_state s' \<and> userStates s' 1 = None"
    using t i by (cases "handleCallback scenario_world cancel_query create_state") simp_all
  have c2: "case handleCallback_II scenario_world cancel_query create_state of
      Inl e \<Rightarrow> False
    | Inr s' \<Rightarrow> idle_again cancel_query create_state s' \<and> userStates s' 1 = None"
    using t i by (cases "handleCallback_II scenario_world cancel_query create_state") simp_all
  show ?thesis by (intro conjI a d st c1 c2)
qed

lemma Split_no_sep: "sep \<notin> set str \<Longrightarrow> Split str sep = [str]"
  by (induction str) auto

lemma handlePagination_no_colon:
  "CHR '':'' \<notin> set data \<Longrightarrow> handlePagination w chatID data s = Inl IndexOutOfRange"
  by (simp add: handlePagination_def Split_no_sep)

lemma route_page: "HasPrefix data ''page_'' \<Longrightarrow> route data = Page"
proof -
  assume "HasPrefix data ''page_''"
  then obtain rest where d: "data = ''page_'' @ rest"
    using HasPrefix_append by blast
  show ?thesis unfolding d by (simp add: route_def HasPrefix_def)
qed

text \<open>
  A token that begins with page_ and has no colon makes handlePagination index parts[1] of a
  one-element slice: the handler of every variant panics, and the click is not acknowledged.
\<close>

theorem page_token_without_colon_panics:
  assumes "HasPrefix (Data query) ''page_''" and "CHR '':'' \<notin> set (Data query)"
    and "\<not> denied (config s) (Query_From_ID query) (Data query)"
  shows "handleCallback w query s = Inl IndexOutOfRange \<and>
         handleCallback_II w query s = Inl IndexOutOfRange \<and>
         handleCallback_III w query s = Inl IndexOutOfRange"
  using assms(3)
  by (simp add: handleCallback_def handleCallback_II_def handleCallback_III_def Let_def
      commonCase_def route_page [OF assms(1)] handlePagination_no_colon [OF assms(2)])

theorem page_token_without_colon_panics_witness:
  "HasPrefix (Data broken_page_query) ''page_'' \<and> CHR '':'' \<notin> set (Data broken_page_query) \<and>
   \<not> denied (config idle_state) (Query_From_ID broken_page_query) (Data broken_page_query) \<and>
   handleCallback scenario_world broken_page_query idle_state = Inl IndexOutOfRange \<and>
   handleCallback_II scenario_world broken_page_query idle_state = Inl IndexOutOfRange"
proof -
  have a: "HasPrefix (Data broken_page_query) ''page_''"
    and b: "CHR '':'' \<notin> set (Data broken_page_query)"
    and d: "\<not> denied (config idle_state) (Query_From_ID broken_page_query) (Data broken_page_query)"
    by (simp_all add: broken_page_query_def HasPrefix_def denied_def isAllowed_def idle_state_def
        scenario_state_def)
  note t = page_token_without_colon_panics [OF a b d, of scenario_world]
  show ?thesis by (intro conjI a b d t [THEN conjunct1] t [THEN conjunct2, THEN conjunct1])
qed

end
